theory Spec2Isabelle
  imports Main "HOL-Library.Char_ord" "HOL-Library.List_Lexorder"
    "HOL-Library.Product_Lexorder" "HOL-Library.Multiset"
begin

section \<open>The property graph\<close>

text \<open>
  Modelled from the spec: the attribute types of an entity and of a relation. Neither is
  declared in the source, which reads them through the query language only
  (\<^verbatim>\<open>n.stix_type\<close>, \<^verbatim>\<open>grp.name\<close>, \<^verbatim>\<open>tac.shortname\<close>, \<^verbatim>\<open>coalesce(t.deprecated,false)\<close>,
  \<^verbatim>\<open>coalesce(tech.platforms,[])\<close>, \<^verbatim>\<open>t.modified\<close>, \<^verbatim>\<open>r.rel_type\<close>). An attribute the
  spec calls possibly absent, defaulted, or used by one type only is optional; \<open>None\<close>
  is the query language's \<^verbatim>\<open>null\<close>. A timestamp is a number of nanoseconds, the
  resolution of the database. A node carries its labels (\<^verbatim>\<open>:Attack\<close>) and a relation
  its relationship type (\<^verbatim>\<open>:ATTACK_REL\<close>, \<^verbatim>\<open>:IN_TACTIC\<close>).
\<close>

record node =
  nid :: nat
  labels :: "string list"
  stix_type :: string
  name :: string
  shortname :: "string option"
  platforms :: "string list option"
  domains :: "string list option"
  deprecated :: "bool option"
  revoked :: "bool option"
  modified :: int

record rel =
  src :: nat
  tgt :: nat
  rtype :: string
  rel_type :: "string option"

record graph =
  nodes :: "node list"
  rels :: "rel list"

text \<open>
  The database behind the driver: the graph, the clock that \<^verbatim>\<open>datetime()\<close> reads, and
  the server setting that decides what \<^verbatim>\<open>shortestPath\<close> does when both end nodes are
  the same node.
\<close>

record database =
  graph :: graph
  clock :: int
  forbid_shortestpath_common_nodes :: bool

section \<open>Values, records and tables\<close>

datatype path = Path nat "(rel \<times> nat) list"

datatype val = VNull | VInt int | VStr string | VList "val list" | VTime int | VPath path

datatype error = ConnectionError | QueryError

type_synonym row = "(string \<times> val) list"

text \<open>
  What \<^verbatim>\<open>session.run\<close> hands back: the records it streams and, when the stream breaks
  before its end, the failure raised while it is consumed.
\<close>

datatype result = Result "row list" "error option"

type_synonym cypher = "database \<Rightarrow> error + result"

record DataFrame =
  columns :: "string list"
  records :: "row list"

definition distinct_first :: "'a list \<Rightarrow> 'a list" where
  "distinct_first xs = rev (remdups (rev xs))"

text \<open>\<^verbatim>\<open>dict(r)\<close>: the keys in the order of their first occurrence, each with its last value.\<close>

definition dict :: "row \<Rightarrow> row" where
  "dict r = map (\<lambda>k. (k, the (map_of (rev r) k))) (distinct_first (map fst r))"

text \<open>
  \<^verbatim>\<open>pd.DataFrame(rows)\<close> on a list of dictionaries: the columns are the keys met, in the
  order they are first met; a list with no dictionary gives a frame with no column.
\<close>

definition pd_DataFrame :: "row list \<Rightarrow> DataFrame" where
  "pd_DataFrame rows =
     \<lparr>columns = distinct_first (concat (map (map fst) rows)), records = rows\<rparr>"

fun df_from_result :: "result \<Rightarrow> error + DataFrame" where
  "df_from_result (Result rs None) = Inr (pd_DataFrame (map dict rs))"
| "df_from_result (Result rs (Some e)) = Inl e"

section \<open>The driver and the query executor\<close>

text \<open>
  The driver hands out sessions, numbered as they are opened. Its journal keeps, in
  order, what was done with them: a session opened, a query run in a session, a session
  closed.
\<close>

datatype event = Opened nat | Ran nat | Closed nat

record driver =
  server :: database
  open_sessions :: "nat list"
  next_session :: nat
  journal :: "event list"

record AttackKG =
  driver :: driver

definition session :: "driver \<Rightarrow> nat \<times> driver" where
  "session d =
     (next_session d,
      d\<lparr>open_sessions := next_session d # open_sessions d,
        next_session := Suc (next_session d),
        journal := journal d @ [Opened (next_session d)]\<rparr>)"

definition close_session :: "nat \<Rightarrow> driver \<Rightarrow> driver" where
  "close_session s d =
     d\<lparr>open_sessions := removeAll s (open_sessions d), journal := journal d @ [Closed s]\<rparr>"

text \<open>\<^verbatim>\<open>s.run(q, **params)\<close>: a session that is not open runs nothing.\<close>

definition run :: "nat \<Rightarrow> cypher \<Rightarrow> driver \<Rightarrow> (error + result) \<times> driver" where
  "run s q d =
     (if s \<in> set (open_sessions d)
      then (q (server d), d\<lparr>journal := journal d @ [Ran s]\<rparr>)
      else (Inl ConnectionError, d))"

text \<open>
  \<^verbatim>\<open>with self.driver.session() as s: res = s.run(q, **params); return df_from_result(res)\<close>.
  The query text with its bound parameters is the function it denotes on the database.
  Leaving the \<^verbatim>\<open>with\<close> block closes the session, whether by the \<^verbatim>\<open>return\<close> or by an
  exception of \<^verbatim>\<open>run\<close> or of the materialisation.
\<close>

definition query :: "AttackKG \<Rightarrow> cypher \<Rightarrow> (error + DataFrame) \<times> AttackKG" where
  "query self q =
     (case session (driver self) of (s, d) \<Rightarrow>
        (case run s q d of
           (Inl e, d') \<Rightarrow> (Inl e, self\<lparr>driver := close_session s d'\<rparr>)
         | (Inr res, d') \<Rightarrow>
             (case df_from_result res of
                Inl e \<Rightarrow> (Inl e, self\<lparr>driver := close_session s d'\<rparr>)
              | Inr df \<Rightarrow> (Inr df, self\<lparr>driver := close_session s d'\<rparr>))))"

section \<open>Clauses of the query language\<close>

definition returns :: "row list \<Rightarrow> error + result" where
  "returns rs = Inr (Result rs None)"

text \<open>
  A character stands for the Unicode code point of its number, so that a string is a
  string over the code points 0 to 255. \<^verbatim>\<open>toLower\<close> is Unicode's lower-casing on
  them: the capital letters, A to Z and U+00C0 to U+00DE without the multiplication sign
  U+00D7, move up by 32, and every other code point below 256 is its own lower-case
  form.
\<close>

definition is_capital :: "char \<Rightarrow> bool" where
  "is_capital c \<longleftrightarrow>
     (CHR ''A'' \<le> c \<and> c \<le> CHR ''Z'') \<or> (CHR 0xC0 \<le> c \<and> c \<le> CHR 0xDE \<and> c \<noteq> CHR 0xD7)"

definition lower_char :: "char \<Rightarrow> char" where
  "lower_char c = (if is_capital c then char_of (of_char c + (32::nat)) else c)"

definition toLower :: "string \<Rightarrow> string" where
  "toLower s = map lower_char s"

fun starts_with :: "string \<Rightarrow> string \<Rightarrow> bool" where
  "starts_with s [] = True"
| "starts_with [] (c # t) = False"
| "starts_with (d # s) (c # t) = (d = c \<and> starts_with s t)"

text \<open>\<^verbatim>\<open>s CONTAINS t\<close>.\<close>

fun contains :: "string \<Rightarrow> string \<Rightarrow> bool" where
  "contains [] t = (t = [])"
| "contains (d # s) t = (starts_with (d # s) t \<or> contains s t)"

text \<open>Node patterns \<^verbatim>\<open>(n:Attack)\<close> and \<^verbatim>\<open>(n:Attack {stix_type: ty})\<close>.\<close>

definition Attack :: "node \<Rightarrow> bool" where
  "Attack n \<longleftrightarrow> ''Attack'' \<in> set (labels n)"

definition Attack_of :: "string \<Rightarrow> node \<Rightarrow> bool" where
  "Attack_of ty n \<longleftrightarrow> Attack n \<and> stix_type n = ty"

text \<open>Relationship patterns \<^verbatim>\<open>[:ATTACK_REL]\<close>, \<^verbatim>\<open>[:ATTACK_REL {rel_type: rt}]\<close>, \<^verbatim>\<open>[:IN_TACTIC]\<close>.\<close>

definition ATTACK_REL :: "rel \<Rightarrow> bool" where
  "ATTACK_REL r \<longleftrightarrow> rtype r = ''ATTACK_REL''"

definition ATTACK_REL_of :: "string \<Rightarrow> rel \<Rightarrow> bool" where
  "ATTACK_REL_of rt r \<longleftrightarrow> ATTACK_REL r \<and> rel_type r = Some rt"

definition IN_TACTIC :: "rel \<Rightarrow> bool" where
  "IN_TACTIC r \<longleftrightarrow> rtype r = ''IN_TACTIC''"

text \<open>
  One hop from a bound node \<open>a\<close>: \<^verbatim>\<open>(a)-[r]->(b)\<close> and \<^verbatim>\<open>(a)<-[r]-(b)\<close>, one match for
  every relation and end node that fit. In \<open>outgoing\<close> the bound node is the source of
  the relation, in \<open>incoming\<close> its target.
\<close>

definition outgoing :: "graph \<Rightarrow> (rel \<Rightarrow> bool) \<Rightarrow> (node \<Rightarrow> bool) \<Rightarrow> node \<Rightarrow> node list" where
  "outgoing G R B a = [b. r \<leftarrow> rels G, R r \<and> src r = nid a, b \<leftarrow> nodes G, nid b = tgt r \<and> B b]"

definition incoming :: "graph \<Rightarrow> (rel \<Rightarrow> bool) \<Rightarrow> (node \<Rightarrow> bool) \<Rightarrow> node \<Rightarrow> node list" where
  "incoming G R B a = [b. r \<leftarrow> rels G, R r \<and> tgt r = nid a, b \<leftarrow> nodes G, nid b = src r \<and> B b]"

text \<open>\<^verbatim>\<open>OPTIONAL MATCH\<close>: the matches, or one \<^verbatim>\<open>null\<close> when there is none.\<close>

definition optional :: "'a list \<Rightarrow> 'a option list" where
  "optional xs = (if xs = [] then [None] else map Some xs)"

text \<open>
  Aggregation groups the rows by the columns that are not aggregated: one group for
  each distinct key, with the rows that have it.
\<close>

definition group_by :: "('r \<Rightarrow> 'k) \<Rightarrow> 'r list \<Rightarrow> ('k \<times> 'r list) list" where
  "group_by f rs = map (\<lambda>k. (k, filter (\<lambda>r. f r = k) rs)) (distinct_first (map f rs))"

text \<open>\<^verbatim>\<open>collect(x)\<close> and \<^verbatim>\<open>count(x)\<close> skip \<^verbatim>\<open>null\<close>.\<close>

definition collect_agg :: "'a option list \<Rightarrow> 'a list" where
  "collect_agg xs = [x. Some x \<leftarrow> xs]"

definition count_agg :: "'a option list \<Rightarrow> int" where
  "count_agg xs = int (length (collect_agg xs))"

text \<open>\<^verbatim>\<open>ORDER BY k DESC\<close> on a number; rows with equal keys keep the order they came in.\<close>

definition order_by_desc :: "('r \<Rightarrow> int) \<Rightarrow> 'r list \<Rightarrow> 'r list" where
  "order_by_desc f rs = sort_key (\<lambda>r. - f r) rs"

text \<open>Ascending \<^verbatim>\<open>ORDER BY\<close> puts \<^verbatim>\<open>null\<close> after every string.\<close>

fun nulls_last :: "string option \<Rightarrow> bool \<times> string" where
  "nulls_last None = (True, [])"
| "nulls_last (Some s) = (False, s)"

fun VOpt :: "string option \<Rightarrow> val" where
  "VOpt None = VNull"
| "VOpt (Some s) = VStr s"

definition VStrs :: "string list \<Rightarrow> val" where
  "VStrs xs = VList (map VStr xs)"

text \<open>
  A catalog entry that takes a filter first matches the nodes whose lower-cased name
  contains the lower-cased filter:
  \<^verbatim>\<open>WITH toLower($group) AS g MATCH (grp:Attack {stix_type:'intrusion-set'}) WHERE toLower(grp.name) CONTAINS g\<close>.
\<close>

definition name_contains :: "string \<Rightarrow> node \<Rightarrow> bool" where
  "name_contains q n \<longleftrightarrow> contains (toLower (name n)) q"

section \<open>Category A: graph statistics\<close>

definition A1_nodes :: "graph \<Rightarrow> int" where
  "A1_nodes G = count_agg [Some n. n \<leftarrow> nodes G, Attack n]"

definition A1_relationships :: "graph \<Rightarrow> int" where
  "A1_relationships G =
     count_agg [Some r. r \<leftarrow> rels G, ATTACK_REL r,
                        a \<leftarrow> nodes G, nid a = src r, b \<leftarrow> nodes G, nid b = tgt r]"

definition A1_q1 :: cypher where
  "A1_q1 db = returns [[(''nodes'', VInt (A1_nodes (graph db)))]]"

definition A1_q2 :: cypher where
  "A1_q2 db = returns [[(''relationships'', VInt (A1_relationships (graph db)))]]"

definition A1_counts :: "AttackKG \<Rightarrow> (error + DataFrame \<times> DataFrame) \<times> AttackKG" where
  "A1_counts self =
     (case query self A1_q1 of
        (Inl e, self1) \<Rightarrow> (Inl e, self1)
      | (Inr df1, self1) \<Rightarrow>
          (case query self1 A1_q2 of
             (Inl e, self2) \<Rightarrow> (Inl e, self2)
           | (Inr df2, self2) \<Rightarrow> (Inr (df1, df2), self2)))"

definition A2_rows :: "graph \<Rightarrow> (string \<times> int) list" where
  "A2_rows G =
     order_by_desc snd
       [(ty, int (length ns)). (ty, ns) \<leftarrow> group_by stix_type [n \<leftarrow> nodes G. Attack n]]"

definition A2_record :: "string \<times> int \<Rightarrow> row" where
  "A2_record r = [(''type'', VStr (fst r)), (''n'', VInt (snd r))]"

definition A2_q :: cypher where
  "A2_q db = returns (map A2_record (A2_rows (graph db)))"

definition A2_object_types :: "AttackKG \<Rightarrow> (error + DataFrame) \<times> AttackKG" where
  "A2_object_types self = query self A2_q"

definition A3_rows :: "graph \<Rightarrow> (string option \<times> int) list" where
  "A3_rows G =
     order_by_desc snd
       [(rt, int (length rs)).
          (rt, rs) \<leftarrow> group_by rel_type
             [r. r \<leftarrow> rels G, ATTACK_REL r,
                 a \<leftarrow> nodes G, nid a = src r, b \<leftarrow> nodes G, nid b = tgt r]]"

definition A3_record :: "string option \<times> int \<Rightarrow> row" where
  "A3_record r = [(''rel_type'', VOpt (fst r)), (''n'', VInt (snd r))]"

definition A3_q :: cypher where
  "A3_q db = returns (map A3_record (A3_rows (graph db)))"

definition A3_relationship_types :: "AttackKG \<Rightarrow> (error + DataFrame) \<times> AttackKG" where
  "A3_relationship_types self = query self A3_q"

definition A4_rows :: "graph \<Rightarrow> (string option \<times> int) list" where
  "A4_rows G =
     order_by_desc snd
       [(tactic, count_agg (map (Some \<circ> snd) ms)).
          (tactic, ms) \<leftarrow> group_by (shortname \<circ> fst)
             [(tac, tech). tac \<leftarrow> nodes G, Attack_of ''x-mitre-tactic'' tac,
                           tech \<leftarrow> incoming G IN_TACTIC (Attack_of ''attack-pattern'') tac]]"

definition A4_record :: "string option \<times> int \<Rightarrow> row" where
  "A4_record r = [(''tactic'', VOpt (fst r)), (''techniques'', VInt (snd r))]"

definition A4_q :: cypher where
  "A4_q db = returns (map A4_record (A4_rows (graph db)))"

definition A4_tactic_technique_counts :: "AttackKG \<Rightarrow> (error + DataFrame) \<times> AttackKG" where
  "A4_tactic_technique_counts self = query self A4_q"

text \<open>\<^verbatim>\<open>coalesce(x, false)\<close>.\<close>

fun coalesce_false :: "bool option \<Rightarrow> bool" where
  "coalesce_false None = False"
| "coalesce_false (Some b) = b"

definition A5_row :: "graph \<Rightarrow> int \<times> int" where
  "A5_row G =
     (let ts = [t \<leftarrow> nodes G. Attack_of ''attack-pattern'' t] in
      (sum_list [if coalesce_false (deprecated t) \<or> coalesce_false (revoked t) then 1 else 0.
                   t \<leftarrow> ts],
       sum_list [if \<not> coalesce_false (deprecated t) \<and> \<not> coalesce_false (revoked t)
                 then 1 else 0. t \<leftarrow> ts]))"

definition A5_record :: "int \<times> int \<Rightarrow> row" where
  "A5_record r = [(''inactive'', VInt (fst r)), (''active'', VInt (snd r))]"

definition A5_q :: cypher where
  "A5_q db = returns [A5_record (A5_row (graph db))]"

definition A5_active_vs_inactive :: "AttackKG \<Rightarrow> (error + DataFrame) \<times> AttackKG" where
  "A5_active_vs_inactive self = query self A5_q"

section \<open>Category B: actor analysis\<close>

definition B1_rows :: "graph \<Rightarrow> string \<Rightarrow> (string option \<times> string) list" where
  "B1_rows G group_name =
     (let g = toLower group_name in
      take 150 (sort_key (\<lambda>(tactic, technique). (nulls_last tactic, technique))
        [(Option.bind tac shortname, name tech).
           grp \<leftarrow> nodes G, Attack_of ''intrusion-set'' grp \<and> name_contains g grp,
           tech \<leftarrow> outgoing G (ATTACK_REL_of ''uses'') (Attack_of ''attack-pattern'') grp,
           tac \<leftarrow> optional (outgoing G IN_TACTIC (Attack_of ''x-mitre-tactic'') tech)]))"

definition B1_record :: "string option \<times> string \<Rightarrow> row" where
  "B1_record r = [(''tactic'', VOpt (fst r)), (''technique'', VStr (snd r))]"

definition B1_q :: "string \<Rightarrow> cypher" where
  "B1_q group_name db = returns (map B1_record (B1_rows (graph db) group_name))"

definition B1_group_techniques :: "AttackKG \<Rightarrow> string \<Rightarrow> (error + DataFrame) \<times> AttackKG" where
  "B1_group_techniques self group_name = query self (B1_q group_name)"

definition tool_or_malware :: "node \<Rightarrow> bool" where
  "tool_or_malware s \<longleftrightarrow> Attack s \<and> stix_type s \<in> set [''tool'', ''malware'']"

definition B2_rows :: "graph \<Rightarrow> string \<Rightarrow> (string \<times> string) list" where
  "B2_rows G group_name =
     (let g = toLower group_name in
      take 100 (sort_key (\<lambda>(kind, software). (kind, software))
        [(stix_type s, name s).
           grp \<leftarrow> nodes G, Attack_of ''intrusion-set'' grp \<and> name_contains g grp,
           s \<leftarrow> outgoing G (ATTACK_REL_of ''uses'') tool_or_malware grp]))"

definition B2_record :: "string \<times> string \<Rightarrow> row" where
  "B2_record r = [(''kind'', VStr (fst r)), (''software'', VStr (snd r))]"

definition B2_q :: "string \<Rightarrow> cypher" where
  "B2_q group_name db = returns (map B2_record (B2_rows (graph db) group_name))"

definition B2_group_software :: "AttackKG \<Rightarrow> string \<Rightarrow> (error + DataFrame) \<times> AttackKG" where
  "B2_group_software self group_name = query self (B2_q group_name)"

definition B3_rows :: "graph \<Rightarrow> string \<Rightarrow> (string \<times> string list) list" where
  "B3_rows G group_name =
     (let g = toLower group_name in
      take 20 (order_by_desc (\<lambda>(software, techniques). int (length techniques))
        [(name s, distinct_first (map (name \<circ> snd) ms)).
           (s, ms) \<leftarrow> group_by fst
              [(s, tech).
                 grp \<leftarrow> nodes G, Attack_of ''intrusion-set'' grp \<and> name_contains g grp,
                 s \<leftarrow> outgoing G (ATTACK_REL_of ''uses'') tool_or_malware grp,
                 tech \<leftarrow> outgoing G (ATTACK_REL_of ''uses'') (Attack_of ''attack-pattern'') s]]))"

definition B3_record :: "string \<times> string list \<Rightarrow> row" where
  "B3_record r = [(''software'', VStr (fst r)), (''techniques'', VStrs (snd r))]"

definition B3_q :: "string \<Rightarrow> cypher" where
  "B3_q group_name db = returns (map B3_record (B3_rows (graph db) group_name))"

definition B3_group_techniques_via_software ::
  "AttackKG \<Rightarrow> string \<Rightarrow> (error + DataFrame) \<times> AttackKG" where
  "B3_group_techniques_via_software self group_name = query self (B3_q group_name)"

definition B4_rows :: "graph \<Rightarrow> string \<Rightarrow> (string \<times> string list) list" where
  "B4_rows G tech =
     (let t = toLower tech in
      take 10
        [(technique, distinct_first (map (name \<circ> snd) ms)).
           (technique, ms) \<leftarrow> group_by (name \<circ> fst)
              [(tech, grp).
                 tech \<leftarrow> nodes G, Attack_of ''attack-pattern'' tech \<and> name_contains t tech,
                 grp \<leftarrow> incoming G (ATTACK_REL_of ''uses'') (Attack_of ''intrusion-set'') tech]])"

definition B4_record :: "string \<times> string list \<Rightarrow> row" where
  "B4_record r = [(''technique'', VStr (fst r)), (''groups'', VStrs (snd r))]"

definition B4_q :: "string \<Rightarrow> cypher" where
  "B4_q tech db = returns (map B4_record (B4_rows (graph db) tech))"

definition B4_technique_users :: "AttackKG \<Rightarrow> string \<Rightarrow> (error + DataFrame) \<times> AttackKG" where
  "B4_technique_users self tech = query self (B4_q tech)"

definition B5_rows :: "graph \<Rightarrow> (string \<times> int) list" where
  "B5_rows G =
     take 20 (order_by_desc snd
       [(group_name, int (length (remdups (map snd ms)))).
          (group_name, ms) \<leftarrow> group_by (name \<circ> fst)
             [(g, t). g \<leftarrow> nodes G, Attack_of ''intrusion-set'' g,
                      t \<leftarrow> outgoing G (ATTACK_REL_of ''uses'') (Attack_of ''attack-pattern'') g]])"

definition B5_record :: "string \<times> int \<Rightarrow> row" where
  "B5_record r = [(''group'', VStr (fst r)), (''techniques'', VInt (snd r))]"

definition B5_q :: cypher where
  "B5_q db = returns (map B5_record (B5_rows (graph db)))"

definition B5_top_groups_by_techniques :: "AttackKG \<Rightarrow> (error + DataFrame) \<times> AttackKG" where
  "B5_top_groups_by_techniques self = query self B5_q"

text \<open>
  \<^verbatim>\<open>(a)-[:ATTACK_REL*..6]-(b)\<close>: a step leaves a node over a generic relation in either
  direction and is the relation with the node it reaches; a walk of \<open>k\<close> steps is a
  path of \<open>k\<close> relations. \<^verbatim>\<open>shortestPath\<close> is a walk of the fewest steps, between one
  and the bound, that ends in \<open>b\<close>. With two different end nodes a walk of the fewest
  steps repeats no relation, so the uniqueness of relations in a pattern needs no
  separate test.
\<close>

definition steps :: "graph \<Rightarrow> nat \<Rightarrow> (rel \<times> nat) list" where
  "steps G a =
     concat (map (\<lambda>r. (if src r = a then [(r, tgt r)] else []) @
                      (if tgt r = a then [(r, src r)] else []))
               [r \<leftarrow> rels G. ATTACK_REL r])"

fun walks :: "graph \<Rightarrow> nat \<Rightarrow> nat \<Rightarrow> (rel \<times> nat) list list" where
  "walks G 0 a = [[]]"
| "walks G (Suc k) a = [s # w. s \<leftarrow> steps G a, w \<leftarrow> walks G k (snd s)]"

definition end_node :: "nat \<Rightarrow> (rel \<times> nat) list \<Rightarrow> nat" where
  "end_node a w = (if w = [] then a else snd (last w))"

definition shortestPath :: "graph \<Rightarrow> nat \<Rightarrow> nat \<Rightarrow> nat \<Rightarrow> path option" where
  "shortestPath G a b hops =
     (case [w. k \<leftarrow> [1..<Suc hops], w \<leftarrow> walks G k a, end_node a w = b] of
        [] \<Rightarrow> None
      | w # ws \<Rightarrow> Some (Path a w))"

text \<open>
  The pairs of groups the two filters match, as the first two clauses of B6 produce
  them: \<^verbatim>\<open>MATCH (a:Attack {stix_type:'intrusion-set'}), (b:Attack {stix_type:'intrusion-set'})
  WHERE toLower(a.name) CONTAINS toLower($g1) AND toLower(b.name) CONTAINS toLower($g2)\<close>.
\<close>

definition B6_pairs :: "graph \<Rightarrow> string \<Rightarrow> string \<Rightarrow> (node \<times> node) list" where
  "B6_pairs G g1 g2 =
     [(a, b). a \<leftarrow> nodes G, Attack_of ''intrusion-set'' a,
              b \<leftarrow> nodes G, Attack_of ''intrusion-set'' b,
              name_contains (toLower g1) a \<and> name_contains (toLower g2) b]"

text \<open>
  The database refuses \<^verbatim>\<open>shortestPath\<close> between a node and itself: while its setting
  \<^verbatim>\<open>forbid_shortestpath_common_nodes\<close> is on, as it is unless the operator turns it off,
  the query fails on such a pair; with the setting off, the pair gives no path.
\<close>

definition B6_rows :: "graph \<Rightarrow> string \<Rightarrow> string \<Rightarrow> path list" where
  "B6_rows G g1 g2 =
     [p. (a, b) \<leftarrow> B6_pairs G g1 g2, nid a \<noteq> nid b,
         Some p \<leftarrow> [shortestPath G (nid a) (nid b) 6]]"

definition B6_record :: "path \<Rightarrow> row" where
  "B6_record p = [(''p'', VPath p)]"

definition B6_q :: "string \<Rightarrow> string \<Rightarrow> cypher" where
  "B6_q g1 g2 db =
     (if forbid_shortestpath_common_nodes db \<and>
         list_ex (\<lambda>(a, b). nid a = nid b) (B6_pairs (graph db) g1 g2)
      then Inl QueryError
      else returns (map B6_record (B6_rows (graph db) g1 g2)))"

definition B6_shortest_connection_between_groups ::
  "AttackKG \<Rightarrow> string \<Rightarrow> string \<Rightarrow> (error + DataFrame) \<times> AttackKG" where
  "B6_shortest_connection_between_groups self g1 g2 = query self (B6_q g1 g2)"

section \<open>Category C: mitigation and detection analysis\<close>

definition C1_rows :: "graph \<Rightarrow> string \<Rightarrow> (string \<times> string list) list" where
  "C1_rows G group_name =
     (let g = toLower group_name in
      take 50 (sort_key fst
        [(technique, distinct_first (map (name \<circ> snd) ms)).
           (technique, ms) \<leftarrow> group_by (name \<circ> fst)
              [(tech, co).
                 grp \<leftarrow> nodes G, Attack_of ''intrusion-set'' grp \<and> name_contains g grp,
                 tech \<leftarrow> outgoing G (ATTACK_REL_of ''uses'') (Attack_of ''attack-pattern'') grp,
                 co \<leftarrow> outgoing G (ATTACK_REL_of ''mitigates'')
                         (Attack_of ''course-of-action'') tech]]))"

definition C1_record :: "string \<times> string list \<Rightarrow> row" where
  "C1_record r = [(''technique'', VStr (fst r)), (''mitigations'', VStrs (snd r))]"

definition C1_q :: "string \<Rightarrow> cypher" where
  "C1_q group_name db = returns (map C1_record (C1_rows (graph db) group_name))"

definition C1_group_mitigations :: "AttackKG \<Rightarrow> string \<Rightarrow> (error + DataFrame) \<times> AttackKG" where
  "C1_group_mitigations self group_name = query self (C1_q group_name)"

definition C2_rows :: "graph \<Rightarrow> string \<Rightarrow> string list" where
  "C2_rows G group_name =
     (let g = toLower group_name in
      take 50 (sort_key (\<lambda>unmitigated. unmitigated)
        [name tech.
           (tech, ms) \<leftarrow> group_by fst
              [(tech, co).
                 grp \<leftarrow> nodes G, Attack_of ''intrusion-set'' grp \<and> name_contains g grp,
                 tech \<leftarrow> outgoing G (ATTACK_REL_of ''uses'') (Attack_of ''attack-pattern'') grp,
                 co \<leftarrow> optional (outgoing G (ATTACK_REL_of ''mitigates'')
                                   (Attack_of ''course-of-action'') tech)],
           count_agg (map snd ms) = 0]))"

definition C2_record :: "string \<Rightarrow> row" where
  "C2_record r = [(''unmitigated'', VStr r)]"

definition C2_q :: "string \<Rightarrow> cypher" where
  "C2_q group_name db = returns (map C2_record (C2_rows (graph db) group_name))"

definition C2_group_mitigation_gaps ::
  "AttackKG \<Rightarrow> string \<Rightarrow> (error + DataFrame) \<times> AttackKG" where
  "C2_group_mitigation_gaps self group_name = query self (C2_q group_name)"

definition C3_rows :: "graph \<Rightarrow> nat \<Rightarrow> (string \<times> int) list" where
  "C3_rows G limit =
     take limit (order_by_desc snd
       [(technique, count_agg (map snd ms)).
          (technique, ms) \<leftarrow> group_by (name \<circ> fst)
             [(tech, dc).
                tech \<leftarrow> nodes G, Attack_of ''attack-pattern'' tech,
                dc \<leftarrow> optional (incoming G (ATTACK_REL_of ''detects'')
                                  (Attack_of ''x-mitre-data-component'') tech)]])"

definition C3_record :: "string \<times> int \<Rightarrow> row" where
  "C3_record r = [(''technique'', VStr (fst r)), (''detectors'', VInt (snd r))]"

definition C3_q :: "nat \<Rightarrow> cypher" where
  "C3_q limit db = returns (map C3_record (C3_rows (graph db) limit))"

definition C3_detection_coverage_top ::
  "AttackKG \<Rightarrow> nat \<Rightarrow> (error + DataFrame) \<times> AttackKG" where
  "C3_detection_coverage_top self limit = query self (C3_q limit)"

definition C4_rows :: "graph \<Rightarrow> string \<Rightarrow> (string \<times> string list \<times> string list) list" where
  "C4_rows G tech =
     (let t = toLower tech in
      [(technique,
        distinct_first (map name (collect_agg (map (fst \<circ> snd) ms))),
        distinct_first (map name (collect_agg (map (snd \<circ> snd) ms)))).
         (technique, ms) \<leftarrow> group_by (name \<circ> fst)
            [(tech, dc, ds).
               tech \<leftarrow> nodes G, Attack_of ''attack-pattern'' tech \<and> name_contains t tech,
               dc \<leftarrow> optional (incoming G (ATTACK_REL_of ''detects'')
                                 (Attack_of ''x-mitre-data-component'') tech),
               ds \<leftarrow> optional (incoming G (ATTACK_REL_of ''detects'')
                                 (Attack_of ''x-mitre-data-source'') tech)]])"

definition C4_record :: "string \<times> string list \<times> string list \<Rightarrow> row" where
  "C4_record r =
     [(''tech.name'', VStr (fst r)), (''data_components'', VStrs (fst (snd r))),
      (''data_sources'', VStrs (snd (snd r)))]"

definition C4_q :: "string \<Rightarrow> cypher" where
  "C4_q tech db = returns (map C4_record (C4_rows (graph db) tech))"

definition C4_detections_for_tech ::
  "AttackKG \<Rightarrow> string \<Rightarrow> (error + DataFrame) \<times> AttackKG" where
  "C4_detections_for_tech self tech = query self (C4_q tech)"

section \<open>Category D: taxonomy and structural analysis\<close>

text \<open>\<^verbatim>\<open>toLower(t.shortname) = tac\<close> is \<^verbatim>\<open>null\<close>, and so not true, on a missing short name.\<close>

fun shortname_is :: "string \<Rightarrow> string option \<Rightarrow> bool" where
  "shortname_is tac None = False"
| "shortname_is tac (Some s) = (toLower s = tac)"

definition D1_rows :: "graph \<Rightarrow> string \<Rightarrow> (string option \<times> string list \<times> int) list" where
  "D1_rows G tactic =
     (let tac = toLower tactic in
      [(shortname_t, take 25 (map (name \<circ> snd) ms), count_agg (map (Some \<circ> snd) ms)).
         (shortname_t, ms) \<leftarrow> group_by (shortname \<circ> fst)
            [(t, tech).
               t \<leftarrow> nodes G,
               Attack_of ''x-mitre-tactic'' t \<and> (shortname_is tac (shortname t) \<or> name_contains tac t),
               tech \<leftarrow> incoming G IN_TACTIC (Attack_of ''attack-pattern'') t]])"

definition D1_record :: "string option \<times> string list \<times> int \<Rightarrow> row" where
  "D1_record r =
     [(''tactic'', VOpt (fst r)), (''sample_techniques'', VStrs (fst (snd r))),
      (''total'', VInt (snd (snd r)))]"

definition D1_q :: "string \<Rightarrow> cypher" where
  "D1_q tactic db = returns (map D1_record (D1_rows (graph db) tactic))"

definition D1_tactic_mapping :: "AttackKG \<Rightarrow> string \<Rightarrow> (error + DataFrame) \<times> AttackKG" where
  "D1_tactic_mapping self tactic = query self (D1_q tactic)"

definition D2_rows :: "graph \<Rightarrow> (string \<times> string list) list" where
  "D2_rows G =
     take 20 (order_by_desc (\<lambda>(technique, subtechniques). int (length subtechniques))
       [(technique, map (name \<circ> fst) ms).
          (technique, ms) \<leftarrow> group_by (name \<circ> snd)
             [(sub, parent).
                sub \<leftarrow> nodes G, Attack_of ''attack-pattern'' sub,
                parent \<leftarrow> outgoing G (ATTACK_REL_of ''subtechnique-of'')
                            (Attack_of ''attack-pattern'') sub]])"

definition D2_record :: "string \<times> string list \<Rightarrow> row" where
  "D2_record r = [(''technique'', VStr (fst r)), (''subtechniques'', VStrs (snd r))]"

definition D2_q :: cypher where
  "D2_q db = returns (map D2_record (D2_rows (graph db)))"

definition D2_subtechniques :: "AttackKG \<Rightarrow> (error + DataFrame) \<times> AttackKG" where
  "D2_subtechniques self = query self D2_q"

text \<open>\<^verbatim>\<open>[p IN coalesce(xs,[]) | toLower(p)]\<close>.\<close>

fun lowered :: "string list option \<Rightarrow> string list" where
  "lowered None = []"
| "lowered (Some xs) = map toLower xs"

definition D3_rows :: "graph \<Rightarrow> (string \<times> int) list" where
  "D3_rows G =
     order_by_desc snd
       [(platform, count_agg (map (Some \<circ> snd) ms)).
          (platform, ms) \<leftarrow> group_by fst
             [(platform, tech).
                platform \<leftarrow> [''windows'', ''linux'', ''macos'', ''azure'', ''aws'', ''gcp'',
                             ''saas'', ''office 365'', ''network''],
                tech \<leftarrow> nodes G,
                Attack_of ''attack-pattern'' tech \<and> platform \<in> set (lowered (platforms tech))]]"

definition D3_record :: "string \<times> int \<Rightarrow> row" where
  "D3_record r = [(''platform'', VStr (fst r)), (''technique_count'', VInt (snd r))]"

definition D3_q :: cypher where
  "D3_q db = returns (map D3_record (D3_rows (graph db)))"

definition D3_techniques_by_platform :: "AttackKG \<Rightarrow> (error + DataFrame) \<times> AttackKG" where
  "D3_techniques_by_platform self = query self D3_q"

definition D4_rows :: "graph \<Rightarrow> (string \<times> int) list" where
  "D4_rows G =
     order_by_desc snd
       [(domain, count_agg (map (Some \<circ> snd) ms)).
          (domain, ms) \<leftarrow> group_by fst
             [(domain, n).
                domain \<leftarrow> [''enterprise-attack'', ''mobile-attack'', ''ics-attack''],
                n \<leftarrow> nodes G, Attack n \<and> domain \<in> set (lowered (domains n))]]"

definition D4_record :: "string \<times> int \<Rightarrow> row" where
  "D4_record r = [(''domain'', VStr (fst r)), (''nodes'', VInt (snd r))]"

definition D4_q :: cypher where
  "D4_q db = returns (map D4_record (D4_rows (graph db)))"

definition D4_domain_breakdown :: "AttackKG \<Rightarrow> (error + DataFrame) \<times> AttackKG" where
  "D4_domain_breakdown self = query self D4_q"

text \<open>
  \<^verbatim>\<open>duration({days: d})\<close> taken from \<^verbatim>\<open>datetime()\<close>, which is in UTC: \<open>d\<close> days of
  86400 seconds, in nanoseconds.
\<close>

definition days_duration :: "int \<Rightarrow> int" where
  "days_duration d = d * 86400000000000"

definition D5_rows :: "database \<Rightarrow> int \<Rightarrow> (string \<times> int) list" where
  "D5_rows db days =
     take 25 (order_by_desc snd
       [(name t, modified t).
          t \<leftarrow> nodes (graph db),
          Attack_of ''attack-pattern'' t \<and> modified t \<ge> clock db - days_duration days])"

definition D5_record :: "string \<times> int \<Rightarrow> row" where
  "D5_record r = [(''technique'', VStr (fst r)), (''t.modified'', VTime (snd r))]"

definition D5_q :: "int \<Rightarrow> cypher" where
  "D5_q days db = returns (map D5_record (D5_rows db days))"

definition D5_recently_modified :: "AttackKG \<Rightarrow> int \<Rightarrow> (error + DataFrame) \<times> AttackKG" where
  "D5_recently_modified self recent_days = query self (D5_q recent_days)"

section \<open>Category E: software pivot\<close>

definition E3_rows :: "graph \<Rightarrow> string \<Rightarrow> (string \<times> string list \<times> string list) list" where
  "E3_rows G software =
     (let q = toLower software in
      [(software_name,
        distinct_first (map name (collect_agg (map (fst \<circ> snd) ms))),
        take 25 (distinct_first (map name (collect_agg (map (snd \<circ> snd) ms))))).
         (software_name, ms) \<leftarrow> group_by (name \<circ> fst)
            [(s, g, tech).
               s \<leftarrow> nodes G, tool_or_malware s \<and> name_contains q s,
               g \<leftarrow> optional (incoming G (ATTACK_REL_of ''uses'') (Attack_of ''intrusion-set'') s),
               tech \<leftarrow> optional (outgoing G (ATTACK_REL_of ''uses'')
                                   (Attack_of ''attack-pattern'') s)]])"

definition E3_record :: "string \<times> string list \<times> string list \<Rightarrow> row" where
  "E3_record r =
     [(''software'', VStr (fst r)), (''groups'', VStrs (fst (snd r))),
      (''techniques'', VStrs (snd (snd r)))]"

definition E3_q :: "string \<Rightarrow> cypher" where
  "E3_q software db = returns (map E3_record (E3_rows (graph db) software))"

definition E3_software_pivot :: "AttackKG \<Rightarrow> string \<Rightarrow> (error + DataFrame) \<times> AttackKG" where
  "E3_software_pivot self software = query self (E3_q software)"

section \<open>Reading a table\<close>

text \<open>The integers of one column of a table, top to bottom.\<close>

definition int_column :: "string \<Rightarrow> DataFrame \<Rightarrow> int list" where
  "int_column c df = [i. r \<leftarrow> records df, Some (VInt i) \<leftarrow> [map_of r c]]"

section \<open>Example graphs\<close>

definition entity :: "nat \<Rightarrow> string \<Rightarrow> string \<Rightarrow> node" where
  "entity i ty nm =
     \<lparr>nid = i, labels = [''Attack''], stix_type = ty, name = nm, shortname = None,
      platforms = None, domains = None, deprecated = None, revoked = None, modified = 0\<rparr>"

definition relation :: "nat \<Rightarrow> string \<Rightarrow> nat \<Rightarrow> rel" where
  "relation a rt b = \<lparr>src = a, tgt = b, rtype = ''ATTACK_REL'', rel_type = Some rt\<rparr>"

text \<open>A fresh handle on a database with the clock at \<open>now\<close> and the server's default setting.\<close>

definition connect :: "graph \<Rightarrow> int \<Rightarrow> AttackKG" where
  "connect G now =
     \<lparr>driver = \<lparr>server = \<lparr>graph = G, clock = now, forbid_shortestpath_common_nodes = True\<rparr>,
                open_sessions = [], next_session = 0, journal = []\<rparr>\<rparr>"

text \<open>
  The group APT29 uses the technique T1003, and the course of action M1027 mitigates
  T1003: the relation leaves the course of action and arrives at the technique.
\<close>

definition mitigated_graph :: graph where
  "mitigated_graph =
     \<lparr>nodes = [entity 1 ''intrusion-set'' ''APT29'', entity 2 ''attack-pattern'' ''T1003'',
               entity 3 ''course-of-action'' ''M1027''],
      rels = [relation 1 ''uses'' 2, relation 3 ''mitigates'' 2]\<rparr>"

text \<open>A handle whose driver already has two sessions open, from other callers.\<close>

definition busy_kg :: AttackKG where
  "busy_kg =
     \<lparr>driver = \<lparr>server = \<lparr>graph = mitigated_graph, clock = 0,
                          forbid_shortestpath_common_nodes = True\<rparr>,
                open_sessions = [4, 2], next_session = 7,
                journal = [Opened 2, Opened 4]\<rparr>\<rparr>"

text \<open>
  The techniques inside the trailing window of \<open>days\<close> days: the last modification is
  not before the clock minus the window.
\<close>

definition recent_techniques :: "database \<Rightarrow> int \<Rightarrow> node list" where
  "recent_techniques db days =
     [t \<leftarrow> nodes (graph db).
        Attack_of ''attack-pattern'' t \<and> clock db - days_duration days \<le> modified t]"

text \<open>
  Three techniques seen at day 200: one modified exactly 180 days before, one a
  nanosecond earlier than that, one modified the day before.
\<close>

definition recency_graph :: graph where
  "recency_graph =
     \<lparr>nodes = [(entity 1 ''attack-pattern'' ''T1003'')\<lparr>modified := 1728000000000000\<rparr>,
               (entity 2 ''attack-pattern'' ''T1059'')\<lparr>modified := 1727999999999999\<rparr>,
               (entity 3 ''attack-pattern'' ''T1566'')\<lparr>modified := 17193600000000000\<rparr>],
      rels = []\<rparr>"







text \<open>
  A result is a table with the columns \<open>cols\<close> when it is a table and not an error,
  with exactly these columns when it has a record and with no column when it has none.
\<close>

definition table_with :: "string list \<Rightarrow> error + DataFrame \<Rightarrow> bool" where
  "table_with cols r =
     (case r of
        Inl e \<Rightarrow> False
      | Inr df \<Rightarrow> columns df = (if records df = [] then [] else cols))"

text \<open>
  The same entities with the relation the other way round: it leaves the technique and
  arrives at the course of action.
\<close>

definition outgoing_mitigation_graph :: graph where
  "outgoing_mitigation_graph =
     \<lparr>nodes = [entity 1 ''intrusion-set'' ''APT29'', entity 2 ''attack-pattern'' ''T1003'',
               entity 3 ''course-of-action'' ''M1027''],
      rels = [relation 1 ''uses'' 2, relation 2 ''mitigates'' 3]\<rparr>"

text \<open>
  One data component detects the technique T1003 through two parallel relations.
\<close>

definition parallel_detects_graph :: graph where
  "parallel_detects_graph =
     \<lparr>nodes = [entity 1 ''attack-pattern'' ''T1003'',
               entity 2 ''x-mitre-data-component'' ''Process Creation''],
      rels = [relation 2 ''detects'' 1, relation 2 ''detects'' 1]\<rparr>"

text \<open>The technique entities of a graph, and the data components that detect one.\<close>

definition techniques :: "graph \<Rightarrow> node list" where
  "techniques G = [t \<leftarrow> nodes G. Attack_of ''attack-pattern'' t]"

definition detectors_of :: "graph \<Rightarrow> node \<Rightarrow> node list" where
  "detectors_of G t =
     incoming G (ATTACK_REL_of ''detects'') (Attack_of ''x-mitre-data-component'') t"

text \<open>
  Two techniques share the name Local Account; a data component detects the first and
  nothing detects the second.
\<close>

definition shared_name_graph :: graph where
  "shared_name_graph =
     \<lparr>nodes = [entity 1 ''attack-pattern'' ''Local Account'',
               entity 2 ''attack-pattern'' ''Local Account'',
               entity 3 ''x-mitre-data-component'' ''User Account Creation''],
      rels = [relation 3 ''detects'' 1]\<rparr>"

text \<open>
  The techniques that the groups matched by a filter use, one for every \<^verbatim>\<open>uses\<close>
  relation.
\<close>

definition used_techniques :: "graph \<Rightarrow> string \<Rightarrow> node list" where
  "used_techniques G f =
     [tech. grp \<leftarrow> nodes G, Attack_of ''intrusion-set'' grp \<and> name_contains (toLower f) grp,
            tech \<leftarrow> outgoing G (ATTACK_REL_of ''uses'') (Attack_of ''attack-pattern'') grp]"

text \<open>
  What the pattern \<^verbatim>\<open>(co:Attack {stix_type:'course-of-action'})<-[:ATTACK_REL {rel_type:'mitigates'}]-(tech)\<close>
  of C1 and of C2 matches from a bound technique: the course-of-action nodes at the head
  of a \<^verbatim>\<open>mitigates\<close> relation that leaves the technique. It is the source's pattern,
  with the arrow as the source has it, and serves the lemmas on C1 and C2 only.
\<close>

definition mitigates_pattern :: "graph \<Rightarrow> node \<Rightarrow> node list" where
  "mitigates_pattern G tech =
     outgoing G (ATTACK_REL_of ''mitigates'') (Attack_of ''course-of-action'') tech"

text \<open>
  APT29 uses two techniques that are both named Local Account. A \<^verbatim>\<open>mitigates\<close>
  relation joins the first to a course of action, from the technique to the course of
  action; no relation touches the second.
\<close>

definition shared_name_gap_graph :: graph where
  "shared_name_gap_graph =
     \<lparr>nodes = [entity 1 ''intrusion-set'' ''APT29'',
               entity 2 ''attack-pattern'' ''Local Account'',
               entity 3 ''attack-pattern'' ''Local Account'',
               entity 4 ''course-of-action'' ''M1027''],
      rels = [relation 1 ''uses'' 2, relation 1 ''uses'' 3, relation 2 ''mitigates'' 4]\<rparr>"

text \<open>
  APT29 uses three techniques. A \<^verbatim>\<open>mitigates\<close> relation joins T1059 to a course of
  action, from the technique to the course of action, and another one joins a course of
  action to T1566, from the course of action to the technique; none touches T1003.
\<close>

definition two_way_graph :: graph where
  "two_way_graph =
     \<lparr>nodes = [entity 1 ''intrusion-set'' ''APT29'',
               entity 2 ''attack-pattern'' ''T1003'',
               entity 3 ''attack-pattern'' ''T1059'',
               entity 4 ''attack-pattern'' ''T1566'',
               entity 5 ''course-of-action'' ''M1047'',
               entity 6 ''course-of-action'' ''M1027''],
      rels = [relation 1 ''uses'' 2, relation 1 ''uses'' 3, relation 1 ''uses'' 4,
              relation 3 ''mitigates'' 5, relation 6 ''mitigates'' 4]\<rparr>"

text \<open>
  APT29 uses 51 techniques, each named by one letter of its own, and the graph has no
  \<^verbatim>\<open>mitigates\<close> relation at all.
\<close>

definition many_gaps_graph :: graph where
  "many_gaps_graph =
     \<lparr>nodes = entity 0 ''intrusion-set'' ''APT29'' #
              map (\<lambda>(i, c). entity i ''attack-pattern'' [c])
                (zip [1..<52] ''ABCDEFGHIJKLMNOPQRSTUVWXYZabcdefghijklmnopqrstuvwxy''),
      rels = map (\<lambda>i. relation 0 ''uses'' i) [1..<52]\<rparr>"


text \<open>The graph with every relation turned round.\<close>

definition flip :: "rel \<Rightarrow> rel" where
  "flip r = r\<lparr>src := tgt r, tgt := src r\<rparr>"

definition flipped :: "graph \<Rightarrow> graph" where
  "flipped G = G\<lparr>rels := map flip (rels G)\<rparr>"




section \<open>Lemmas on the clauses and the executor\<close>

lemma set_distinct_first [simp]: "set (distinct_first xs) = set xs"
  by (simp add: distinct_first_def)

lemma distinct_distinct_first [simp]: "distinct (distinct_first xs)"
  by (simp add: distinct_first_def)

lemma dict_id: "distinct (map fst r) \<Longrightarrow> dict r = r"
proof -
  assume d: "distinct (map fst r)"
  then have "distinct_first (map fst r) = map fst r"
    by (simp add: distinct_first_def distinct_remdups_id)
  moreover have "\<And>k v. (k, v) \<in> set r \<Longrightarrow> map_of (rev r) k = Some v"
    using d by (intro map_of_is_SomeI) (simp_all add: rev_map [symmetric])
  then have "map ((\<lambda>k. (k, the (map_of (rev r) k))) \<circ> fst) r = r"
    by (intro map_idI) auto
  ultimately show ?thesis
    by (simp add: dict_def)
qed

lemma query_fst:
  "fst (query self q) =
     (case q (server (driver self)) of Inl e \<Rightarrow> Inl e | Inr res \<Rightarrow> df_from_result res)"
  by (simp add: query_def session_def run_def split: sum.splits)

lemma query_journal:
  "journal (driver (snd (query self q))) =
     journal (driver self) @
       [Opened (next_session (driver self)), Ran (next_session (driver self)),
        Closed (next_session (driver self))]"
  by (simp add: query_def session_def run_def close_session_def split: sum.splits)

lemma query_server: "server (driver (snd (query self q))) = server (driver self)"
  by (simp add: query_def session_def run_def close_session_def split: sum.splits)

lemma query_returns:
  "q (server (driver self)) = returns rs \<Longrightarrow>
   fst (query self q) = Inr (pd_DataFrame (map dict rs))"
  by (simp add: query_fst returns_def)

lemma sum_group_sizes:
  assumes "finite K" "f ` set rs \<subseteq> K"
  shows "(\<Sum>k\<in>K. length (filter (\<lambda>r. f r = k) rs)) = length rs"
  using assms
proof (induction rs)
  case Nil
  then show ?case by simp
next
  case (Cons r rs)
  have "(\<Sum>k\<in>K. length (filter (\<lambda>x. f x = k) (r # rs)))
      = (\<Sum>k\<in>K. (if k = f r then 1 else 0) + length (filter (\<lambda>x. f x = k) rs))"
    by (rule sum.cong) auto
  also have "\<dots> = (\<Sum>k\<in>K. (if k = f r then 1 else 0))
                  + (\<Sum>k\<in>K. length (filter (\<lambda>x. f x = k) rs))"
    by (simp add: sum.distrib)
  also have "\<dots> = 1 + length rs"
    using Cons by simp
  finally show ?case by simp
qed

lemma group_by_sizes:
  "sum_list (map (\<lambda>g. int (length (snd g))) (group_by f rs)) = int (length rs)"
proof -
  have "sum_list (map (\<lambda>g. int (length (snd g))) (group_by f rs))
      = sum_list (map (\<lambda>k. int (length (filter (\<lambda>r. f r = k) rs))) (distinct_first (map f rs)))"
    by (simp add: group_by_def comp_def)
  also have "\<dots> = (\<Sum>k\<in>f ` set rs. int (length (filter (\<lambda>r. f r = k) rs)))"
    by (simp add: sum_list_distinct_conv_sum_set)
  also have "\<dots> = int (\<Sum>k\<in>f ` set rs. length (filter (\<lambda>r. f r = k) rs))"
    by simp
  also have "\<dots> = int (length rs)"
    by (simp add: sum_group_sizes)
  finally show ?thesis .
qed

lemma sum_list_order_by_desc:
  fixes g :: "'r \<Rightarrow> int"
  shows "sum_list (map g (order_by_desc f rs)) = sum_list (map g rs)"
proof -
  have "mset (map g (order_by_desc f rs)) = mset (map g rs)"
    by (simp add: order_by_desc_def)
  then have "sum_mset (mset (map g (order_by_desc f rs))) = sum_mset (mset (map g rs))"
    by simp
  then show ?thesis by (simp only: sum_mset_sum_list)
qed

lemma concat_map_if_single:
  "concat (map (\<lambda>x. if P x then [f x] else []) xs) = map f (filter P xs)"
  by (induction xs) auto

lemma concat_map_if:
  "concat (map (\<lambda>x. if P x then g x else []) xs) = concat (map g (filter P xs))"
  by (induction xs) auto

lemma count_agg_Some: "count_agg (map Some xs) = int (length xs)"
  by (simp add: count_agg_def collect_agg_def comp_def)

section \<open>Graph statistics: the per-type counts add up\<close>

lemma A1_counts_fst:
  "fst (A1_counts self) =
     Inr (pd_DataFrame [[(''nodes'', VInt (A1_nodes (graph (server (driver self)))))]],
          pd_DataFrame
            [[(''relationships'', VInt (A1_relationships (graph (server (driver self)))))]])"
proof -
  obtain r1 self1 where q1: "query self A1_q1 = (r1, self1)"
    by (cases "query self A1_q1")
  obtain r2 self2 where q2: "query self1 A1_q2 = (r2, self2)"
    by (cases "query self1 A1_q2")
  have s1: "server (driver self1) = server (driver self)"
    using query_server [of self A1_q1] q1 by simp
  have "r1 = Inr (pd_DataFrame
                   (map dict [[(''nodes'', VInt (A1_nodes (graph (server (driver self)))))]]))"
    using query_returns [of A1_q1 self, OF A1_q1_def] q1 by simp
  moreover have "r2 = Inr (pd_DataFrame (map dict
       [[(''relationships'', VInt (A1_relationships (graph (server (driver self1)))))]]))"
    using query_returns [of A1_q2 self1, OF A1_q2_def] q2 by simp
  ultimately show ?thesis
    by (simp add: A1_counts_def q1 q2 s1 dict_id)
qed

lemma A1_nodes_length: "A1_nodes G = int (length [n \<leftarrow> nodes G. Attack n])"
proof -
  have "[Some n. n \<leftarrow> nodes G, Attack n] = map Some [n \<leftarrow> nodes G. Attack n]"
    by (simp add: concat_map_if_single)
  then show ?thesis
    by (simp add: A1_nodes_def count_agg_Some)
qed

lemma query_returns_map:
  assumes "q (server (driver self)) = returns (map mk rs)"
    and "\<And>r. distinct (map fst (mk r))"
  shows "fst (query self q) = Inr (pd_DataFrame (map mk rs))"
proof -
  have "dict \<circ> mk = mk"
    by (rule ext) (simp add: dict_id assms(2))
  then show ?thesis
    using query_returns [of q self, OF assms(1)] by simp
qed

lemma A2_object_types_fst:
  "fst (A2_object_types self) =
     Inr (pd_DataFrame (map A2_record (A2_rows (graph (server (driver self))))))"
  unfolding A2_object_types_def
  by (rule query_returns_map) (simp_all add: A2_q_def A2_record_def)

lemma A2_rows_sum: "sum_list (map snd (A2_rows G)) = A1_nodes G"
proof -
  have "sum_list (map snd (A2_rows G))
      = sum_list (map (\<lambda>g. int (length (snd g))) (group_by stix_type [n \<leftarrow> nodes G. Attack n]))"
    unfolding A2_rows_def
    by (simp add: sum_list_order_by_desc comp_def case_prod_unfold)
  then show ?thesis
    by (simp add: group_by_sizes A1_nodes_length)
qed

lemma int_column_A2: "int_column ''n'' (pd_DataFrame (map A2_record rs)) = map snd rs"
  by (induction rs) (simp_all add: int_column_def pd_DataFrame_def A2_record_def)

text \<open>
  C7: on every graph, A1 and A2 both answer, and the counts in column \<^verbatim>\<open>n\<close> of A2's
  table, one row for each \<^verbatim>\<open>stix_type\<close>, add up to the single value in column
  \<^verbatim>\<open>nodes\<close> of A1's first table.
\<close>

theorem A2_counts_sum_to_A1_nodes:
  "\<exists>df1 df2 df.
     fst (A1_counts self) = Inr (df1, df2) \<and> fst (A2_object_types self) = Inr df \<and>
     int_column ''nodes'' df1 = [sum_list (int_column ''n'' df)]"
  by (simp add: A1_counts_fst A2_object_types_fst int_column_A2 A2_rows_sum)
     (simp add: int_column_def pd_DataFrame_def)

theorem A2_counts_sum_to_A1_nodes_witness:
  "\<exists>df1 df2 df.
     fst (A1_counts (connect mitigated_graph 0)) = Inr (df1, df2) \<and>
     fst (A2_object_types (connect mitigated_graph 0)) = Inr df \<and>
     int_column ''nodes'' df1 = [3] \<and> int_column ''n'' df = [1, 1, 1]"
proof -
  have "fst (A2_object_types (connect mitigated_graph 0)) = Inr \<lparr>columns = [''type'', ''n''],
        records =
          [[(''type'', VStr ''intrusion-set''), (''n'', VInt 1)],
           [(''type'', VStr ''attack-pattern''), (''n'', VInt 1)],
           [(''type'', VStr ''course-of-action''), (''n'', VInt 1)]]\<rparr>"
    by code_simp
  moreover have "int_column ''n'' \<lparr>columns = [''type'', ''n''],
        records =
          [[(''type'', VStr ''intrusion-set''), (''n'', VInt 1)],
           [(''type'', VStr ''attack-pattern''), (''n'', VInt 1)],
           [(''type'', VStr ''course-of-action''), (''n'', VInt 1)]]\<rparr> = [1, 1, 1]"
    by code_simp
  ultimately show ?thesis
    using A2_counts_sum_to_A1_nodes [of "connect mitigated_graph 0"] by auto
qed

lemma query_open_sessions:
  "open_sessions (driver (snd (query self q))) =
     removeAll (next_session (driver self)) (open_sessions (driver self))"
  by (simp add: query_def session_def run_def close_session_def split: sum.splits)

lemma query_next_session:
  "next_session (driver (snd (query self q))) = Suc (next_session (driver self))"
  by (simp add: query_def session_def run_def close_session_def split: sum.splits)

text \<open>
  C9: every call of \<open>query\<close> acquires a session of its own and releases it, whatever the
  query does: fail in \<^verbatim>\<open>run\<close>, fail while the records are read, return no record, or
  return some. The driver's journal grows by exactly three entries: the session with
  the driver's next number is opened, the query is run in that session, and that
  session is closed. The number is used up, the sessions open after the call are those
  that were open before it, the new session is not among them, and the result of the
  call is the outcome of the query: its error, the error met while reading its records,
  or the table of its records. The session numbers in use are below the driver's next
  number, and stay so.
\<close>

theorem query_releases_session:
  assumes "list_all (\<lambda>s. s < next_session (driver self)) (open_sessions (driver self))"
  shows "journal (driver (snd (query self q))) =
           journal (driver self) @
             [Opened (next_session (driver self)), Ran (next_session (driver self)),
              Closed (next_session (driver self))] \<and>
         next_session (driver (snd (query self q))) = Suc (next_session (driver self)) \<and>
         open_sessions (driver (snd (query self q))) = open_sessions (driver self) \<and>
         next_session (driver self) \<notin> set (open_sessions (driver (snd (query self q)))) \<and>
         list_all (\<lambda>s. s < next_session (driver (snd (query self q))))
           (open_sessions (driver (snd (query self q)))) \<and>
         fst (query self q) =
           (case q (server (driver self)) of
              Inl e \<Rightarrow> Inl e
            | Inr res \<Rightarrow> df_from_result res)"
proof -
  have fresh: "next_session (driver self) \<notin> set (open_sessions (driver self))"
    using assms by (auto simp: list_all_iff)
  then have same: "open_sessions (driver (snd (query self q))) = open_sessions (driver self)"
    by (simp add: query_open_sessions)
  have "next_session (driver self) \<notin> set (open_sessions (driver (snd (query self q))))"
    using fresh same by simp
  moreover have "list_all (\<lambda>s. s < next_session (driver (snd (query self q))))
           (open_sessions (driver (snd (query self q))))"
    using assms by (auto simp: same query_next_session list_all_iff less_Suc_eq)
  ultimately show ?thesis
    using same by (simp add: query_journal query_next_session query_fst)
qed

theorem query_releases_session_witness:
  "journal (driver (snd (query busy_kg (\<lambda>db. Inl QueryError)))) =
     [Opened 2, Opened 4, Opened 7, Ran 7, Closed 7] \<and>
   open_sessions (driver (snd (query busy_kg (\<lambda>db. Inl QueryError)))) = [4, 2] \<and>
   fst (query busy_kg (\<lambda>db. Inl QueryError)) = Inl QueryError \<and>
   journal (driver (snd (query busy_kg (\<lambda>db. Inr (Result [] (Some ConnectionError)))))) =
     [Opened 2, Opened 4, Opened 7, Ran 7, Closed 7] \<and>
   open_sessions (driver (snd (query busy_kg (\<lambda>db. Inr (Result [] (Some ConnectionError))))))
     = [4, 2] \<and>
   fst (query busy_kg (\<lambda>db. Inr (Result [] (Some ConnectionError)))) = Inl ConnectionError \<and>
   journal (driver (snd (query busy_kg (C1_q ''APT29'')))) =
     [Opened 2, Opened 4, Opened 7, Ran 7, Closed 7] \<and>
   open_sessions (driver (snd (query busy_kg (C1_q ''APT29'')))) = [4, 2] \<and>
   fst (query busy_kg (C1_q ''APT29'')) = Inr \<lparr>columns = [], records = []\<rparr> \<and>
   open_sessions (driver (snd (query busy_kg (C2_q ''APT29'')))) = [4, 2] \<and>
   fst (query busy_kg (C2_q ''APT29'')) =
     Inr \<lparr>columns = [''unmitigated''], records = [[(''unmitigated'', VStr ''T1003'')]]\<rparr>"
proof -
  have h: "list_all (\<lambda>s. s < next_session (driver busy_kg)) (open_sessions (driver busy_kg))"
    by (simp add: busy_kg_def)
  have o: "open_sessions (driver busy_kg) = [4, 2]" "next_session (driver busy_kg) = 7"
    "journal (driver busy_kg) = [Opened 2, Opened 4]"
    by (simp_all add: busy_kg_def)
  have "fst (query busy_kg (C1_q ''APT29'')) = Inr \<lparr>columns = [], records = []\<rparr>"
    by code_simp
  moreover have "fst (query busy_kg (C2_q ''APT29'')) =
     Inr \<lparr>columns = [''unmitigated''], records = [[(''unmitigated'', VStr ''T1003'')]]\<rparr>"
    by code_simp
  moreover have "fst (query busy_kg (\<lambda>db. Inl QueryError)) = Inl QueryError"
    by (simp add: query_fst)
  moreover have "fst (query busy_kg (\<lambda>db. Inr (Result [] (Some ConnectionError)))) =
      Inl ConnectionError"
    by (simp add: query_fst)
  ultimately show ?thesis
    using query_releases_session [OF h, of "\<lambda>db. Inl QueryError"]
      query_releases_session [OF h, of "\<lambda>db. Inr (Result [] (Some ConnectionError))"]
      query_releases_session [OF h, of "C1_q ''APT29''"]
      query_releases_session [OF h, of "C2_q ''APT29''"] o
    by simp
qed

lemma sorted_take_drop_le:
  assumes "sorted (map k ys)" "y \<in> set (take n ys)" "x \<in> set (drop n ys)"
  shows "k y \<le> k x"
proof -
  have "sorted (map k (take n ys) @ map k (drop n ys))"
    using assms(1) by (simp flip: map_append)
  then show ?thesis
    using assms(2,3) by (auto simp: sorted_append)
qed

lemma take_sort_key_rest:
  assumes "x \<in> set xs" "x \<notin> set (take n (sort_key k xs))" "y \<in> set (take n (sort_key k xs))"
  shows "k y \<le> k x"
proof -
  have "x \<in> set (take n (sort_key k xs) @ drop n (sort_key k xs))"
    using assms(1) by simp
  then have "x \<in> set (drop n (sort_key k xs))"
    using assms(2) by (simp only: set_append) blast
  then show ?thesis
    using sorted_take_drop_le [of k "sort_key k xs" y n x] assms(3) by simp
qed

lemma mset_take_subseteq: "mset (take n xs) \<subseteq># mset xs"
proof -
  have "mset xs = mset (take n xs) + mset (drop n xs)"
    by (metis append_take_drop_id mset_append)
  then show ?thesis by simp
qed

lemma sorted_desc_order_by:
  "sorted_wrt (\<lambda>r r'. f r' \<le> f r) (order_by_desc f rs)"
proof -
  have "sorted (map (\<lambda>r. - f r) (order_by_desc f rs))"
    by (simp add: order_by_desc_def)
  then show ?thesis
    by (simp add: sorted_wrt_map)
qed

lemma sorted_wrt_take: "sorted_wrt P xs \<Longrightarrow> sorted_wrt P (take n xs)"
  by (metis append_take_drop_id sorted_wrt_append)

lemma D5_recently_modified_fst:
  "fst (D5_recently_modified self days) =
     Inr (pd_DataFrame (map D5_record (D5_rows (server (driver self)) days)))"
  unfolding D5_recently_modified_def
  by (rule query_returns_map) (simp_all add: D5_q_def D5_record_def)

lemma D5_rows_eq:
  "D5_rows db days =
     take 25 (order_by_desc snd (map (\<lambda>t. (name t, modified t)) (recent_techniques db days)))"
  by (simp add: D5_rows_def recent_techniques_def concat_map_if_single)

text \<open>
  C5: D5 answers with the techniques whose \<^verbatim>\<open>modified\<close> is at or after the clock minus
  the day window, newest first, at most 25 of them. The rows are techniques of the
  window, each at most as often as the window has it; all of them when the window has
  at most 25, and otherwise 25 of them such that no technique left out is newer than a
  row kept. A technique modified exactly at the cutoff is in the window, an older one
  is not.
\<close>

theorem D5_recently_modified_window:
  "\<exists>rows.
     fst (D5_recently_modified self days) = Inr (pd_DataFrame (map D5_record rows)) \<and>
     length rows = min 25 (length (recent_techniques (server (driver self)) days)) \<and>
     sorted_wrt (\<lambda>r r'. snd r' \<le> snd r) rows \<and>
     mset rows \<subseteq># mset (map (\<lambda>t. (name t, modified t))
                          (recent_techniques (server (driver self)) days)) \<and>
     (\<forall>t \<in> set (recent_techniques (server (driver self)) days).
        \<forall>r \<in> set rows. (name t, modified t) \<notin> set rows \<longrightarrow> modified t \<le> snd r) \<and>
     (length (recent_techniques (server (driver self)) days) \<le> 25 \<longrightarrow>
        mset rows = mset (map (\<lambda>t. (name t, modified t))
                            (recent_techniques (server (driver self)) days))) \<and>
     (\<forall>t \<in> set (nodes (graph (server (driver self)))).
        t \<in> set (recent_techniques (server (driver self)) days) \<longleftrightarrow>
        Attack_of ''attack-pattern'' t \<and>
        clock (server (driver self)) - days * 86400000000000 \<le> modified t)"
proof -
  let ?db = "server (driver self)"
  let ?all = "map (\<lambda>t. (name t, modified t)) (recent_techniques ?db days)"
  let ?rows = "D5_rows ?db days"
  have 1: "fst (D5_recently_modified self days) = Inr (pd_DataFrame (map D5_record ?rows))"
    by (rule D5_recently_modified_fst)
  have 2: "length ?rows = min 25 (length (recent_techniques ?db days))"
    by (simp add: D5_rows_eq order_by_desc_def min.commute)
  have 3: "sorted_wrt (\<lambda>r r'. snd r' \<le> snd r) ?rows"
    unfolding D5_rows_eq by (intro sorted_wrt_take sorted_desc_order_by)
  have "mset ?rows \<subseteq># mset (order_by_desc snd ?all)"
    unfolding D5_rows_eq by (rule mset_take_subseteq)
  then have 4: "mset ?rows \<subseteq># mset ?all"
    by (simp add: order_by_desc_def)
  have 5: "modified t \<le> snd r"
    if "t \<in> set (recent_techniques ?db days)" "r \<in> set ?rows" "(name t, modified t) \<notin> set ?rows"
    for t r
  proof -
    have "(name t, modified t) \<in> set ?all"
      using that(1) by auto
    then have "- snd r \<le> - snd (name t, modified t)"
      using that(2,3) unfolding D5_rows_eq order_by_desc_def
      by (intro take_sort_key_rest [where k = "\<lambda>r. - snd r" and xs = ?all and n = 25]) auto
    then show ?thesis by simp
  qed
  have 6: "t \<in> set (recent_techniques ?db days) \<longleftrightarrow>
        Attack_of ''attack-pattern'' t \<and> clock ?db - days * 86400000000000 \<le> modified t"
    if "t \<in> set (nodes (graph ?db))" for t
    using that by (simp add: recent_techniques_def days_duration_def)
  have 7: "mset ?rows = mset ?all" if "length (recent_techniques ?db days) \<le> 25"
    using that by (simp add: D5_rows_eq order_by_desc_def)
  show ?thesis
    using 1 2 3 4 5 6 7 by blast
qed

theorem D5_recently_modified_window_witness:
  "map name (recent_techniques (server (driver (connect recency_graph 17280000000000000))) 180)
     = [''T1003'', ''T1566''] \<and>
   fst (D5_recently_modified (connect recency_graph 17280000000000000) 180) =
     Inr \<lparr>columns = [''technique'', ''t.modified''],
          records = [[(''technique'', VStr ''T1566''), (''t.modified'', VTime 17193600000000000)],
                     [(''technique'', VStr ''T1003''), (''t.modified'', VTime 1728000000000000)]]\<rparr> \<and>
   (\<exists>rows. fst (D5_recently_modified (connect recency_graph 17280000000000000) 180) =
             Inr (pd_DataFrame (map D5_record rows)) \<and> length rows = 2)"
proof -
  have a: "map name (recent_techniques (server (driver (connect recency_graph 17280000000000000))) 180)
     = [''T1003'', ''T1566'']"
    by code_simp
  have b: "fst (D5_recently_modified (connect recency_graph 17280000000000000) 180) =
     Inr \<lparr>columns = [''technique'', ''t.modified''],
          records = [[(''technique'', VStr ''T1566''), (''t.modified'', VTime 17193600000000000)],
                     [(''technique'', VStr ''T1003''), (''t.modified'', VTime 1728000000000000)]]\<rparr>"
    by code_simp
  have "length (recent_techniques (server (driver (connect recency_graph 17280000000000000))) 180) = 2"
    using a by (metis length_map length_Cons list.size(3) numeral_2_eq_2)
  then have "\<exists>rows. fst (D5_recently_modified (connect recency_graph 17280000000000000) 180) =
             Inr (pd_DataFrame (map D5_record rows)) \<and> length rows = 2"
    using D5_recently_modified_window [of "connect recency_graph 17280000000000000" 180]
    by auto
  then show ?thesis using a b by simp
qed


























lemma distinct_first_absorb:
  assumes "distinct ks" "set ys \<subseteq> set ks"
  shows "distinct_first (ks @ ys) = ks"
proof -
  have "set (rev ys) \<subseteq> set (rev ks)"
    using assms(2) by simp
  then have "remdups (rev ys @ rev ks) = remdups (rev ks)"
    by (rule remdups_append)
  then show ?thesis
    using assms(1) by (simp add: distinct_first_def distinct_remdups_id)
qed

lemma columns_pd_DataFrame:
  assumes "\<And>r. map fst (mk r) = cols" and "distinct cols"
  shows "columns (pd_DataFrame (map mk rs)) = (if rs = [] then [] else cols)"
proof (cases rs)
  case Nil
  then show ?thesis by (simp add: pd_DataFrame_def distinct_first_def)
next
  case (Cons r rs')
  have "set (concat (map (map fst \<circ> mk) rs')) \<subseteq> set cols"
    by (auto simp: assms(1))
  then show ?thesis
    using Cons assms by (simp add: pd_DataFrame_def distinct_first_absorb)
qed

lemma query_table:
  assumes "q (server (driver self)) = returns (map mk rs)"
    and "\<And>r. map fst (mk r) = cols" and "distinct cols"
  shows "table_with cols (fst (query self q))"
proof -
  have "fst (query self q) = Inr (pd_DataFrame (map mk rs))"
    using assms by (intro query_returns_map) simp_all
  then show ?thesis
    using columns_pd_DataFrame [of mk cols rs] assms(2,3)
    by (simp add: table_with_def pd_DataFrame_def)
qed

lemma A2_table: "table_with [''type'', ''n''] (fst (A2_object_types self))"
  unfolding A2_object_types_def
  by (rule query_table [where mk = A2_record and rs = "A2_rows (graph (server (driver self)))"])
     (simp_all add: A2_q_def A2_record_def)

lemma A3_table: "table_with [''rel_type'', ''n''] (fst (A3_relationship_types self))"
  unfolding A3_relationship_types_def
  by (rule query_table [where mk = A3_record and rs = "A3_rows (graph (server (driver self)))"])
     (simp_all add: A3_q_def A3_record_def)

lemma A4_table: "table_with [''tactic'', ''techniques''] (fst (A4_tactic_technique_counts self))"
  unfolding A4_tactic_technique_counts_def
  by (rule query_table [where mk = A4_record and rs = "A4_rows (graph (server (driver self)))"])
     (simp_all add: A4_q_def A4_record_def)

lemma B1_table: "table_with [''tactic'', ''technique''] (fst (B1_group_techniques self f))"
  unfolding B1_group_techniques_def
  by (rule query_table [where mk = B1_record and rs = "B1_rows (graph (server (driver self))) f"])
     (simp_all add: B1_q_def B1_record_def)

lemma B2_table: "table_with [''kind'', ''software''] (fst (B2_group_software self f))"
  unfolding B2_group_software_def
  by (rule query_table [where mk = B2_record and rs = "B2_rows (graph (server (driver self))) f"])
     (simp_all add: B2_q_def B2_record_def)

lemma B3_table: "table_with [''software'', ''techniques''] (fst (B3_group_techniques_via_software self f))"
  unfolding B3_group_techniques_via_software_def
  by (rule query_table [where mk = B3_record and rs = "B3_rows (graph (server (driver self))) f"])
     (simp_all add: B3_q_def B3_record_def)

lemma B4_table: "table_with [''technique'', ''groups''] (fst (B4_technique_users self f))"
  unfolding B4_technique_users_def
  by (rule query_table [where mk = B4_record and rs = "B4_rows (graph (server (driver self))) f"])
     (simp_all add: B4_q_def B4_record_def)

lemma B5_table: "table_with [''group'', ''techniques''] (fst (B5_top_groups_by_techniques self))"
  unfolding B5_top_groups_by_techniques_def
  by (rule query_table [where mk = B5_record and rs = "B5_rows (graph (server (driver self)))"])
     (simp_all add: B5_q_def B5_record_def)

lemma C1_table: "table_with [''technique'', ''mitigations''] (fst (C1_group_mitigations self f))"
  unfolding C1_group_mitigations_def
  by (rule query_table [where mk = C1_record and rs = "C1_rows (graph (server (driver self))) f"])
     (simp_all add: C1_q_def C1_record_def)

lemma C2_table: "table_with [''unmitigated''] (fst (C2_group_mitigation_gaps self f))"
  unfolding C2_group_mitigation_gaps_def
  by (rule query_table [where mk = C2_record and rs = "C2_rows (graph (server (driver self))) f"])
     (simp_all add: C2_q_def C2_record_def)

lemma C3_table: "table_with [''technique'', ''detectors''] (fst (C3_detection_coverage_top self limit))"
  unfolding C3_detection_coverage_top_def
  by (rule query_table [where mk = C3_record and rs = "C3_rows (graph (server (driver self))) limit"])
     (simp_all add: C3_q_def C3_record_def)

lemma C4_table: "table_with [''tech.name'', ''data_components'', ''data_sources''] (fst (C4_detections_for_tech self f))"
  unfolding C4_detections_for_tech_def
  by (rule query_table [where mk = C4_record and rs = "C4_rows (graph (server (driver self))) f"])
     (simp_all add: C4_q_def C4_record_def)

lemma D1_table: "table_with [''tactic'', ''sample_techniques'', ''total''] (fst (D1_tactic_mapping self f))"
  unfolding D1_tactic_mapping_def
  by (rule query_table [where mk = D1_record and rs = "D1_rows (graph (server (driver self))) f"])
     (simp_all add: D1_q_def D1_record_def)

lemma D2_table: "table_with [''technique'', ''subtechniques''] (fst (D2_subtechniques self))"
  unfolding D2_subtechniques_def
  by (rule query_table [where mk = D2_record and rs = "D2_rows (graph (server (driver self)))"])
     (simp_all add: D2_q_def D2_record_def)

lemma D3_table: "table_with [''platform'', ''technique_count''] (fst (D3_techniques_by_platform self))"
  unfolding D3_techniques_by_platform_def
  by (rule query_table [where mk = D3_record and rs = "D3_rows (graph (server (driver self)))"])
     (simp_all add: D3_q_def D3_record_def)

lemma D4_table: "table_with [''domain'', ''nodes''] (fst (D4_domain_breakdown self))"
  unfolding D4_domain_breakdown_def
  by (rule query_table [where mk = D4_record and rs = "D4_rows (graph (server (driver self)))"])
     (simp_all add: D4_q_def D4_record_def)

lemma D5_table: "table_with [''technique'', ''t.modified''] (fst (D5_recently_modified self days))"
  unfolding D5_recently_modified_def
  by (rule query_table [where mk = D5_record and rs = "D5_rows (server (driver self)) days"])
     (simp_all add: D5_q_def D5_record_def)

lemma E3_table: "table_with [''software'', ''groups'', ''techniques''] (fst (E3_software_pivot self f))"
  unfolding E3_software_pivot_def
  by (rule query_table [where mk = E3_record and rs = "E3_rows (graph (server (driver self))) f"])
     (simp_all add: E3_q_def E3_record_def)

lemma A5_table:
  "table_with [''inactive'', ''active''] (fst (A5_active_vs_inactive self)) \<and>
   (\<exists>df. fst (A5_active_vs_inactive self) = Inr df \<and> length (records df) = 1)"
proof -
  have "fst (A5_active_vs_inactive self) =
          Inr (pd_DataFrame (map A5_record [A5_row (graph (server (driver self)))]))"
    unfolding A5_active_vs_inactive_def
    by (rule query_returns_map) (simp_all add: A5_q_def A5_record_def)
  then show ?thesis
    by (simp add: table_with_def pd_DataFrame_def A5_record_def distinct_first_def)
qed

lemma A1_table:
  "\<exists>df1 df2. fst (A1_counts self) = Inr (df1, df2) \<and>
     columns df1 = [''nodes''] \<and> length (records df1) = 1 \<and>
     columns df2 = [''relationships''] \<and> length (records df2) = 1"
  by (simp add: A1_counts_fst pd_DataFrame_def distinct_first_def)

lemma B6_table:
  "(forbid_shortestpath_common_nodes (server (driver self)) \<and>
    list_ex (\<lambda>(a, b). nid a = nid b) (B6_pairs (graph (server (driver self))) g1 g2) \<longrightarrow>
      fst (B6_shortest_connection_between_groups self g1 g2) = Inl QueryError) \<and>
   (\<not> (forbid_shortestpath_common_nodes (server (driver self)) \<and>
        list_ex (\<lambda>(a, b). nid a = nid b) (B6_pairs (graph (server (driver self))) g1 g2)) \<longrightarrow>
      table_with [''p''] (fst (B6_shortest_connection_between_groups self g1 g2)))"
proof (intro conjI impI)
  assume "forbid_shortestpath_common_nodes (server (driver self)) \<and>
    list_ex (\<lambda>(a, b). nid a = nid b) (B6_pairs (graph (server (driver self))) g1 g2)"
  then show "fst (B6_shortest_connection_between_groups self g1 g2) = Inl QueryError"
    by (simp add: B6_shortest_connection_between_groups_def query_fst B6_q_def)
next
  assume "\<not> (forbid_shortestpath_common_nodes (server (driver self)) \<and>
        list_ex (\<lambda>(a, b). nid a = nid b) (B6_pairs (graph (server (driver self))) g1 g2))"
  then have "B6_q g1 g2 (server (driver self)) =
      returns (map B6_record (B6_rows (graph (server (driver self))) g1 g2))"
    by (auto simp: B6_q_def)
  then have "table_with [''p''] (fst (query self (B6_q g1 g2)))"
    by (rule query_table) (simp_all add: B6_record_def)
  then show "table_with [''p''] (fst (B6_shortest_connection_between_groups self g1 g2))"
    by (simp add: B6_shortest_connection_between_groups_def)
qed

text \<open>
  C8, amended: every catalog entry answers with a table whose columns are exactly the
  names of its \<^verbatim>\<open>RETURN\<close> clause whenever the query yields a record. When the query
  yields no record the answer is still a table and not an absent value, but a table
  with no column at all. A1 and A5 aggregate without a grouping key and always yield
  one record. B6 fails instead of answering exactly when the server's setting
  \<^verbatim>\<open>forbid_shortestpath_common_nodes\<close> is on and some group is matched by both
  filters, and answers with such a table otherwise. The limit of C3 is a natural number:
  the database refuses a negative limit, and no entry is run with one here.
\<close>

theorem catalog_columns:
  "(\<exists>df1 df2. fst (A1_counts self) = Inr (df1, df2) \<and>
      columns df1 = [''nodes''] \<and> length (records df1) = 1 \<and>
      columns df2 = [''relationships''] \<and> length (records df2) = 1) \<and>
   table_with [''inactive'', ''active''] (fst (A5_active_vs_inactive self)) \<and>
   (\<exists>df. fst (A5_active_vs_inactive self) = Inr df \<and> length (records df) = 1) \<and>
   (forbid_shortestpath_common_nodes (server (driver self)) \<and>
    list_ex (\<lambda>(a, b). nid a = nid b) (B6_pairs (graph (server (driver self))) g1 g2) \<longrightarrow>
      fst (B6_shortest_connection_between_groups self g1 g2) = Inl QueryError) \<and>
   (\<not> (forbid_shortestpath_common_nodes (server (driver self)) \<and>
        list_ex (\<lambda>(a, b). nid a = nid b) (B6_pairs (graph (server (driver self))) g1 g2)) \<longrightarrow>
      table_with [''p''] (fst (B6_shortest_connection_between_groups self g1 g2))) \<and>
   table_with [''type'', ''n''] (fst (A2_object_types self)) \<and>
   table_with [''rel_type'', ''n''] (fst (A3_relationship_types self)) \<and>
   table_with [''tactic'', ''techniques''] (fst (A4_tactic_technique_counts self)) \<and>
   table_with [''tactic'', ''technique''] (fst (B1_group_techniques self f)) \<and>
   table_with [''kind'', ''software''] (fst (B2_group_software self f)) \<and>
   table_with [''software'', ''techniques''] (fst (B3_group_techniques_via_software self f)) \<and>
   table_with [''technique'', ''groups''] (fst (B4_technique_users self f)) \<and>
   table_with [''group'', ''techniques''] (fst (B5_top_groups_by_techniques self)) \<and>
   table_with [''technique'', ''mitigations''] (fst (C1_group_mitigations self f)) \<and>
   table_with [''unmitigated''] (fst (C2_group_mitigation_gaps self f)) \<and>
   table_with [''technique'', ''detectors''] (fst (C3_detection_coverage_top self limit)) \<and>
   table_with [''tech.name'', ''data_components'', ''data_sources''] (fst (C4_detections_for_tech self f)) \<and>
   table_with [''tactic'', ''sample_techniques'', ''total''] (fst (D1_tactic_mapping self f)) \<and>
   table_with [''technique'', ''subtechniques''] (fst (D2_subtechniques self)) \<and>
   table_with [''platform'', ''technique_count''] (fst (D3_techniques_by_platform self)) \<and>
   table_with [''domain'', ''nodes''] (fst (D4_domain_breakdown self)) \<and>
   table_with [''technique'', ''t.modified''] (fst (D5_recently_modified self days)) \<and>
   table_with [''software'', ''groups'', ''techniques''] (fst (E3_software_pivot self f))"
  using A1_table [of self] A5_table [of self] B6_table [of self g1 g2]
  by (simp only: A2_table A3_table A4_table B1_table B2_table B3_table B4_table B5_table C1_table C2_table C3_table C4_table D1_table D2_table D3_table D4_table D5_table E3_table simp_thms)

theorem catalog_columns_witness:
  "table_with [''tech.name'', ''data_components'', ''data_sources'']
     (fst (C4_detections_for_tech (connect mitigated_graph 0) ''t1003'')) \<and>
   fst (C4_detections_for_tech (connect mitigated_graph 0) ''t1003'') =
     Inr \<lparr>columns = [''tech.name'', ''data_components'', ''data_sources''],
          records = [[(''tech.name'', VStr ''T1003''), (''data_components'', VList []),
                      (''data_sources'', VList [])]]\<rparr>"
proof -
  have "fst (C4_detections_for_tech (connect mitigated_graph 0) ''t1003'') =
     Inr \<lparr>columns = [''tech.name'', ''data_components'', ''data_sources''],
          records = [[(''tech.name'', VStr ''T1003''), (''data_components'', VList []),
                      (''data_sources'', VList [])]]\<rparr>"
    by code_simp
  then show ?thesis
    using catalog_columns [of "connect mitigated_graph 0" "''a''" "''b''" "''t1003''" 1 1]
    by simp
qed

text \<open>
  C8 as stated fails: no technique of the graph is named like the filter, C4 yields no
  record, and the table that comes back has no column, not the three of C4.
\<close>

theorem empty_table_has_no_columns:
  "\<exists>df. fst (C4_detections_for_tech (connect mitigated_graph 0) ''Credential Dumping'') = Inr df \<and>
        records df = [] \<and> columns df = [] \<and>
        columns df \<noteq> [''tech.name'', ''data_components'', ''data_sources'']"
proof -
  have "fst (C4_detections_for_tech (connect mitigated_graph 0) ''Credential Dumping'') =
          Inr \<lparr>columns = [], records = []\<rparr>"
    by code_simp
  then show ?thesis by simp
qed

text \<open>
  C1, the code at the failing input: M1027 mitigates T1003, which APT29 uses, with the
  course of action as the source of the relation and the technique as its target, and
  C1 returns no row. C1 returns the row only when the relation leaves the technique.
\<close>

theorem C1_misses_mitigation_onto_technique:
  "fst (C1_group_mitigations (connect mitigated_graph 0) ''APT29'') =
     Inr \<lparr>columns = [], records = []\<rparr> \<and>
   fst (C1_group_mitigations (connect outgoing_mitigation_graph 0) ''APT29'') =
     Inr \<lparr>columns = [''technique'', ''mitigations''],
          records = [[(''technique'', VStr ''T1003''),
                      (''mitigations'', VList [VStr ''M1027''])]]\<rparr>"
  by code_simp

text \<open>
  C3, the code at the failing input: one data component with two parallel
  \<^verbatim>\<open>detects\<close> relations onto T1003 is counted twice.
\<close>

theorem C3_counts_parallel_detects_twice:
  "fst (C3_detection_coverage_top (connect parallel_detects_graph 0) 25) =
     Inr \<lparr>columns = [''technique'', ''detectors''],
          records = [[(''technique'', VStr ''T1003''), (''detectors'', VInt 2)]]\<rparr>"
  by code_simp

lemma count_agg_nonneg: "0 \<le> count_agg xs"
  by (simp add: count_agg_def)

lemma collect_agg_Nil_iff: "collect_agg xs = [] \<longleftrightarrow> (\<forall>x \<in> set xs. x = None)"
  by (induction xs) (auto simp: collect_agg_def split: option.splits)

lemma count_agg_0_iff: "count_agg xs = 0 \<longleftrightarrow> (\<forall>x \<in> set xs. x = None)"
  by (simp add: count_agg_def collect_agg_Nil_iff)

lemma set_optional: "set (optional xs) = (if xs = [] then {None} else Some ` set xs)"
  by (simp add: optional_def)

lemma C3_matches_set:
  "set [(tech, dc). tech \<leftarrow> nodes G, Attack_of ''attack-pattern'' tech,
          dc \<leftarrow> optional (incoming G (ATTACK_REL_of ''detects'')
                    (Attack_of ''x-mitre-data-component'') tech)]
   = {(t, d). t \<in> set (techniques G) \<and> d \<in> set (optional (detectors_of G t))}"
  by (auto simp: techniques_def detectors_of_def)

lemma set_group_by_fst: "fst ` set (group_by f rs) = f ` set rs"
  by (simp add: group_by_def image_comp comp_def)

lemma map_fst_group_by: "map fst (group_by f rs) = distinct_first (map f rs)"
  by (simp add: group_by_def comp_def)

lemma group_by_member:
  "(k, ms) \<in> set (group_by f rs) \<longleftrightarrow> k \<in> f ` set rs \<and> ms = filter (\<lambda>r. f r = k) rs"
  by (auto simp: group_by_def)

lemma C3_rows_eq:
  "C3_rows G limit =
     take limit (order_by_desc snd
       (map (\<lambda>g. (fst g, count_agg (map snd (snd g))))
         (group_by (name \<circ> fst)
           [(tech, dc). tech \<leftarrow> nodes G, Attack_of ''attack-pattern'' tech,
              dc \<leftarrow> optional (incoming G (ATTACK_REL_of ''detects'')
                        (Attack_of ''x-mitre-data-component'') tech)])))"
  by (simp add: C3_rows_def case_prod_unfold)

lemma C3_match_names:
  "(name \<circ> fst) ` {(t, d). t \<in> set (techniques G) \<and> d \<in> set (optional (detectors_of G t))}
     = name ` set (techniques G)"
proof -
  have "\<exists>d. d \<in> set (optional (detectors_of G t))" for t
    by (cases "detectors_of G t") (auto simp: optional_def)
  then show ?thesis
    by (auto simp: image_iff)
qed

lemma C3_rows_all:
  fixes G
  defines "M \<equiv> [(tech, dc). tech \<leftarrow> nodes G, Attack_of ''attack-pattern'' tech,
              dc \<leftarrow> optional (incoming G (ATTACK_REL_of ''detects'')
                        (Attack_of ''x-mitre-data-component'') tech)]"
  defines "agg \<equiv> map (\<lambda>g. (fst g, count_agg (map snd (snd g)))) (group_by (name \<circ> fst) M)"
  shows "C3_rows G limit = take limit (order_by_desc snd agg)"
    and "map fst agg = distinct_first (map (name \<circ> fst) M)"
    and "set (map fst agg) = name ` set (techniques G)"
    and "length agg \<le> length (nodes G)"
    and "(nm, c) \<in> set agg \<Longrightarrow>
           0 \<le> c \<and> (c = 0 \<longleftrightarrow>
             (\<forall>t \<in> set (techniques G). name t = nm \<longrightarrow> detectors_of G t = []))"
proof -
  have M: "set M = {(t, d). t \<in> set (techniques G) \<and> d \<in> set (optional (detectors_of G t))}"
    unfolding M_def by (rule C3_matches_set)
  show "C3_rows G limit = take limit (order_by_desc snd agg)"
    unfolding agg_def M_def by (rule C3_rows_eq)
  show fst_agg: "map fst agg = distinct_first (map (name \<circ> fst) M)"
    by (simp add: agg_def comp_def map_fst_group_by [unfolded comp_def])
  show names: "set (map fst agg) = name ` set (techniques G)"
    using C3_match_names [of G] by (simp add: fst_agg M)
  have "length agg = card (set (map fst agg))"
    by (metis fst_agg distinct_card distinct_distinct_first length_map)
  also have "\<dots> \<le> card (set (techniques G))"
    unfolding names by (rule card_image_le) simp
  also have "\<dots> \<le> length (techniques G)"
    by (rule card_length)
  also have "\<dots> \<le> length (nodes G)"
    by (simp add: techniques_def)
  finally show "length agg \<le> length (nodes G)" .
  show "0 \<le> c \<and> (c = 0 \<longleftrightarrow>
             (\<forall>t \<in> set (techniques G). name t = nm \<longrightarrow> detectors_of G t = []))"
    if "(nm, c) \<in> set agg"
  proof -
    from that obtain ms where g: "(nm, ms) \<in> set (group_by (name \<circ> fst) M)"
      and c: "c = count_agg (map snd ms)"
      by (auto simp: agg_def)
    have ms: "ms = filter (\<lambda>r. (name \<circ> fst) r = nm) M"
      using g by (simp add: group_by_member)
    have "c = 0 \<longleftrightarrow> (\<forall>r \<in> set M. name (fst r) = nm \<longrightarrow> snd r = None)"
      by (auto simp: c ms count_agg_0_iff)
    also have "\<dots> \<longleftrightarrow> (\<forall>t \<in> set (techniques G). name t = nm \<longrightarrow> detectors_of G t = [])"
    proof (intro iffI ballI impI)
      fix t
      assume a: "\<forall>r \<in> set M. name (fst r) = nm \<longrightarrow> snd r = None"
        and t: "t \<in> set (techniques G)" "name t = nm"
      show "detectors_of G t = []"
      proof (rule ccontr)
        assume "detectors_of G t \<noteq> []"
        then obtain d where "d \<in> set (detectors_of G t)"
          by (cases "detectors_of G t") auto
        then have "(t, Some d) \<in> set M"
          using t(1) by (auto simp: M set_optional)
        then show False
          using a t(2) by fastforce
      qed
    next
      fix r
      assume a: "\<forall>t \<in> set (techniques G). name t = nm \<longrightarrow> detectors_of G t = []"
        and r: "r \<in> set M" "name (fst r) = nm"
      then have "detectors_of G (fst r) = []" "snd r \<in> set (optional (detectors_of G (fst r)))"
        by (auto simp: M)
      then show "snd r = None"
        by (simp add: optional_def)
    qed
    finally show ?thesis
      by (simp add: c count_agg_nonneg)
  qed
qed

lemma C3_rows_ex:
  "\<exists>agg. (\<forall>limit. C3_rows G limit = take limit (order_by_desc snd agg)) \<and>
     distinct (map fst agg) \<and> set (map fst agg) = name ` set (techniques G) \<and>
     length agg \<le> length (nodes G) \<and>
     (\<forall>nm c. (nm, c) \<in> set agg \<longrightarrow>
        0 \<le> c \<and> (c = 0 \<longleftrightarrow>
          (\<forall>t \<in> set (techniques G). name t = nm \<longrightarrow> detectors_of G t = [])))"
  using C3_rows_all [where G = G]
  by (intro exI conjI allI impI) (assumption | simp)+

lemma C3_detection_coverage_top_fst:
  "fst (C3_detection_coverage_top self limit) =
     Inr (pd_DataFrame (map C3_record (C3_rows (graph (server (driver self))) limit)))"
  unfolding C3_detection_coverage_top_def
  by (rule query_returns_map) (simp_all add: C3_q_def C3_record_def)

text \<open>
  C10, amended: C3 keeps one row for every technique name, whether or not anything
  detects a technique of that name. The caller's limit only cuts the ranking, which is
  ordered by descending count and has each name once; every technique entity finds its
  name in it; and the count beside a name is 0 exactly when no technique of that name
  has a \<^verbatim>\<open>detects\<close> relation coming in from a data component.
\<close>

theorem C3_keeps_every_technique_name:
  assumes "graph (server (driver self)) = G"
  shows "fst (C3_detection_coverage_top self limit) =
           Inr (pd_DataFrame (map C3_record (C3_rows G limit))) \<and>
         C3_rows G limit = take limit (C3_rows G (length (nodes G))) \<and>
         sorted_wrt (\<lambda>r r'. snd r' \<le> snd r) (C3_rows G (length (nodes G))) \<and>
         distinct (map fst (C3_rows G (length (nodes G)))) \<and>
         (\<forall>t \<in> set (techniques G).
            \<exists>c. (name t, c) \<in> set (C3_rows G (length (nodes G))) \<and> 0 \<le> c \<and>
                (c = 0 \<longleftrightarrow>
                   (\<forall>t' \<in> set (techniques G). name t' = name t \<longrightarrow> detectors_of G t' = []))) \<and>
         (\<forall>r \<in> set (C3_rows G (length (nodes G))). \<exists>t \<in> set (techniques G). fst r = name t)"
proof -
  obtain agg where rows: "\<And>limit. C3_rows G limit = take limit (order_by_desc snd agg)"
    and dist: "distinct (map fst agg)"
    and names: "set (map fst agg) = name ` set (techniques G)"
    and len: "length agg \<le> length (nodes G)"
    and cnt: "\<And>nm c. (nm, c) \<in> set agg \<Longrightarrow>
        0 \<le> c \<and> (c = 0 \<longleftrightarrow>
          (\<forall>t \<in> set (techniques G). name t = nm \<longrightarrow> detectors_of G t = []))"
    using C3_rows_ex [of G] by blast
  have full: "C3_rows G (length (nodes G)) = order_by_desc snd agg"
    using len by (simp add: rows order_by_desc_def)
  have set_full: "set (C3_rows G (length (nodes G))) = set agg"
    by (simp add: full order_by_desc_def)
  have 1: "fst (C3_detection_coverage_top self limit) =
           Inr (pd_DataFrame (map C3_record (C3_rows G limit)))"
    using assms C3_detection_coverage_top_fst [of self limit] by simp
  have 2: "C3_rows G limit = take limit (C3_rows G (length (nodes G)))"
    unfolding full by (rule rows)
  have 3: "sorted_wrt (\<lambda>r r'. snd r' \<le> snd r) (C3_rows G (length (nodes G)))"
    unfolding full by (rule sorted_desc_order_by)
  have "mset (map fst (order_by_desc snd agg)) = mset (map fst agg)"
    by (simp add: order_by_desc_def)
  then have 4: "distinct (map fst (C3_rows G (length (nodes G))))"
    using dist unfolding full by (metis mset_eq_imp_distinct_iff)
  have 5: "\<exists>c. (name t, c) \<in> set (C3_rows G (length (nodes G))) \<and> 0 \<le> c \<and>
                (c = 0 \<longleftrightarrow>
                   (\<forall>t' \<in> set (techniques G). name t' = name t \<longrightarrow> detectors_of G t' = []))"
    if "t \<in> set (techniques G)" for t
  proof -
    have "name t \<in> set (map fst agg)"
      using that names by simp
    then obtain c where "(name t, c) \<in> set agg"
      by auto
    then show ?thesis
      using cnt [of "name t" c] set_full by blast
  qed
  have 6: "\<exists>t \<in> set (techniques G). fst r = name t"
    if "r \<in> set (C3_rows G (length (nodes G)))" for r
  proof -
    have "fst r \<in> set (map fst agg)"
      using that set_full by simp
    then show ?thesis
      using names by auto
  qed
  show ?thesis
    using 1 2 3 4 5 6 by blast
qed

theorem C3_keeps_every_technique_name_witness:
  "C3_rows parallel_detects_graph 25 = [(''T1003'', 2)] \<and>
   C3_rows mitigated_graph 25 = [(''T1003'', 0)] \<and>
   map name (techniques mitigated_graph) = [''T1003''] \<and>
   fst (C3_detection_coverage_top (connect mitigated_graph 0) 25) =
     Inr (pd_DataFrame (map C3_record (C3_rows mitigated_graph 25)))"
proof -
  have g: "graph (server (driver (connect mitigated_graph 0))) = mitigated_graph"
    by (simp add: connect_def)
  have "C3_rows parallel_detects_graph 25 = [(''T1003'', 2)]"
    by code_simp
  moreover have "C3_rows mitigated_graph 25 = [(''T1003'', 0)]"
    by code_simp
  moreover have "map name (techniques mitigated_graph) = [''T1003'']"
    by code_simp
  ultimately show ?thesis
    using C3_keeps_every_technique_name [OF g, of 25] by simp
qed

text \<open>
  C10 as stated fails: the second technique named Local Account has no detector, and
  the only row is the one of the name, with the count 1 of the first technique. No row
  has the count 0.
\<close>

theorem undetected_technique_merged_by_name:
  "map (\<lambda>t. (nid t, name t, length (detectors_of shared_name_graph t)))
       (techniques shared_name_graph) =
     [(1, ''Local Account'', 1), (2, ''Local Account'', 0)] \<and>
   fst (C3_detection_coverage_top (connect shared_name_graph 0) 25) =
     Inr \<lparr>columns = [''technique'', ''detectors''],
          records = [[(''technique'', VStr ''Local Account''), (''detectors'', VInt 1)]]\<rparr>"
  by code_simp

lemma sort_cong_mset: "mset xs = mset ys \<Longrightarrow> sort xs = sort ys"
  by (rule properties_for_sort) simp_all

lemma map_sort_key: "map f (sort_key f xs) = sort (map f xs)"
  by (rule properties_for_sort [symmetric]) simp_all

lemma distinct_same_set_mset:
  "set xs = set ys \<Longrightarrow> mset (distinct_first xs) = mset (remdups ys)"
  by (subst set_eq_iff_mset_eq_distinct [symmetric]) simp_all

lemma C2_matches_set:
  "set [(tech, co).
          grp \<leftarrow> nodes G, Attack_of ''intrusion-set'' grp \<and> name_contains (toLower f) grp,
          tech \<leftarrow> outgoing G (ATTACK_REL_of ''uses'') (Attack_of ''attack-pattern'') grp,
          co \<leftarrow> optional (outgoing G (ATTACK_REL_of ''mitigates'')
                            (Attack_of ''course-of-action'') tech)]
   = {(t, c). t \<in> set (used_techniques G f) \<and> c \<in> set (optional (mitigates_pattern G t))}"
  by (auto simp: used_techniques_def mitigates_pattern_def)

lemma C1_matches_set:
  "set [(tech, co).
          grp \<leftarrow> nodes G, Attack_of ''intrusion-set'' grp \<and> name_contains (toLower f) grp,
          tech \<leftarrow> outgoing G (ATTACK_REL_of ''uses'') (Attack_of ''attack-pattern'') grp,
          co \<leftarrow> outgoing G (ATTACK_REL_of ''mitigates'')
                  (Attack_of ''course-of-action'') tech]
   = {(t, c). t \<in> set (used_techniques G f) \<and> c \<in> set (mitigates_pattern G t)}"
  by (auto simp: used_techniques_def mitigates_pattern_def)

lemma optional_nonempty: "\<exists>d. d \<in> set (optional xs)"
  by (cases xs) (auto simp: optional_def)

lemma count_agg_optional_0:
  assumes "set M = {(t, c). t \<in> set us \<and> c \<in> set (optional (ms t))}" and "t \<in> set us"
  shows "count_agg (map snd (filter (\<lambda>r. fst r = t) M)) = 0 \<longleftrightarrow> ms t = []"
proof -
  have "count_agg (map snd (filter (\<lambda>r. fst r = t) M)) = 0
      \<longleftrightarrow> (\<forall>r \<in> set M. fst r = t \<longrightarrow> snd r = None)"
    by (auto simp: count_agg_0_iff)
  also have "\<dots> \<longleftrightarrow> (\<forall>c \<in> set (optional (ms t)). c = None)"
    using assms by auto
  also have "\<dots> \<longleftrightarrow> ms t = []"
    by (cases "ms t") (auto simp: optional_def)
  finally show ?thesis .
qed

lemma C2_rows_eq:
  "C2_rows G f =
     take 50 (sort (map name [t \<leftarrow> remdups (used_techniques G f). mitigates_pattern G t = []]))"
proof -
  define M where "M = [(tech, co).
          grp \<leftarrow> nodes G, Attack_of ''intrusion-set'' grp \<and> name_contains (toLower f) grp,
          tech \<leftarrow> outgoing G (ATTACK_REL_of ''uses'') (Attack_of ''attack-pattern'') grp,
          co \<leftarrow> optional (outgoing G (ATTACK_REL_of ''mitigates'')
                            (Attack_of ''course-of-action'') tech)]"
  have M: "set M = {(t, c). t \<in> set (used_techniques G f) \<and> c \<in> set (optional (mitigates_pattern G t))}"
    unfolding M_def by (rule C2_matches_set)
  have keys: "set (map fst M) = set (used_techniques G f)"
    using optional_nonempty by (auto simp: M image_iff) 
  have "C2_rows G f =
      take 50 (sort (map name
        [t \<leftarrow> distinct_first (map fst M). count_agg (map snd (filter (\<lambda>r. fst r = t) M)) = 0]))"
    unfolding C2_rows_def Let_def M_def [symmetric]
    by (simp add: group_by_def case_prod_unfold concat_map_if_single comp_def filter_map)
  also have "[t \<leftarrow> distinct_first (map fst M). count_agg (map snd (filter (\<lambda>r. fst r = t) M)) = 0]
      = [t \<leftarrow> distinct_first (map fst M). mitigates_pattern G t = []]"
    using keys by (intro filter_cong refl count_agg_optional_0 [OF M]) simp
  also have "sort (map name [t \<leftarrow> distinct_first (map fst M). mitigates_pattern G t = []])
      = sort (map name [t \<leftarrow> remdups (used_techniques G f). mitigates_pattern G t = []])"
    by (intro sort_cong_mset) (simp add: distinct_same_set_mset [OF keys])
  finally show ?thesis .
qed

lemma C1_names_eq:
  "map fst (C1_rows G f) =
     take 50 (sort (remdups (map name [t \<leftarrow> used_techniques G f. mitigates_pattern G t \<noteq> []])))"
proof -
  define M where "M = [(tech, co).
          grp \<leftarrow> nodes G, Attack_of ''intrusion-set'' grp \<and> name_contains (toLower f) grp,
          tech \<leftarrow> outgoing G (ATTACK_REL_of ''uses'') (Attack_of ''attack-pattern'') grp,
          co \<leftarrow> outgoing G (ATTACK_REL_of ''mitigates'')
                  (Attack_of ''course-of-action'') tech]"
  have M: "set M = {(t, c). t \<in> set (used_techniques G f) \<and> c \<in> set (mitigates_pattern G t)}"
    unfolding M_def by (rule C1_matches_set)
  have keys: "set (map (name \<circ> fst) M)
      = set (map name [t \<leftarrow> used_techniques G f. mitigates_pattern G t \<noteq> []])"
  proof -
    have "fst ` set M = {t \<in> set (used_techniques G f). mitigates_pattern G t \<noteq> []}"
    proof (intro set_eqI iffI)
      fix t assume "t \<in> fst ` set M"
      then show "t \<in> {t \<in> set (used_techniques G f). mitigates_pattern G t \<noteq> []}"
        by (auto simp: M)
    next
      fix t assume t: "t \<in> {t \<in> set (used_techniques G f). mitigates_pattern G t \<noteq> []}"
      then obtain c where "c \<in> set (mitigates_pattern G t)"
        by (cases "mitigates_pattern G t") auto
      then have "(t, c) \<in> set M"
        using t by (simp add: M)
      then show "t \<in> fst ` set M"
        by force
    qed
    then have "name ` fst ` set M
        = name ` {t \<in> set (used_techniques G f). mitigates_pattern G t \<noteq> []}"
      by simp
    then show ?thesis
      by (simp add: image_image)
  qed
  define agg where "agg = map (\<lambda>g. (fst g, distinct_first (map (name \<circ> snd) (snd g))))
          (group_by (name \<circ> fst) M)"
  have "C1_rows G f = take 50 (sort_key fst agg)"
    unfolding C1_rows_def Let_def M_def [symmetric] agg_def
    by (simp add: case_prod_unfold)
  then have "map fst (C1_rows G f) = take 50 (map fst (sort_key fst agg))"
    by (simp add: take_map)
  also have "map fst (sort_key fst agg) = sort (map fst agg)"
    by (rule map_sort_key)
  also have "map fst agg = distinct_first (map (name \<circ> fst) M)"
    by (simp add: agg_def comp_def map_fst_group_by [unfolded comp_def])
  also have "sort (distinct_first (map (name \<circ> fst) M))
      = sort (remdups (map name [t \<leftarrow> used_techniques G f. mitigates_pattern G t \<noteq> []]))"
    by (intro sort_cong_mset distinct_same_set_mset keys)
  finally show ?thesis .
qed

lemma take_short: "length (take n xs) < n \<Longrightarrow> take n xs = xs"
  by (simp add: min_def split: if_splits)

lemma C1_group_mitigations_fst:
  "fst (C1_group_mitigations self f) =
     Inr (pd_DataFrame (map C1_record (C1_rows (graph (server (driver self))) f)))"
  unfolding C1_group_mitigations_def
  by (rule query_returns_map) (simp_all add: C1_q_def C1_record_def)

lemma C2_group_mitigation_gaps_fst:
  "fst (C2_group_mitigation_gaps self f) =
     Inr (pd_DataFrame (map C2_record (C2_rows (graph (server (driver self))) f)))"
  unfolding C2_group_mitigation_gaps_def
  by (rule query_returns_map) (simp_all add: C2_q_def C2_record_def)

text \<open>
  C2, amended. Both tables hold names of techniques that the matched groups use and of
  no others, and C2's names are in order and at most 50. When both tables have fewer
  than 50 rows, so that neither limit has cut anything, every used technique has its
  name in one of the two tables: the optional match loses no technique. When the used
  techniques have different names, no name is in both tables. When both tables have
  fewer than 50 rows and no name is in both, the names of C2 are exactly the names of
  the used techniques that are not among the names of C1. Which techniques the pattern
  of the two queries takes as mitigated is no part of this statement.
\<close>

theorem C2_gaps_complement_C1:
  assumes "graph (server (driver self)) = G"
  shows "fst (C1_group_mitigations self f) = Inr (pd_DataFrame (map C1_record (C1_rows G f))) \<and>
         fst (C2_group_mitigation_gaps self f) = Inr (pd_DataFrame (map C2_record (C2_rows G f))) \<and>
         length (C2_rows G f) \<le> 50 \<and> sorted (C2_rows G f) \<and>
         set (C2_rows G f) \<union> fst ` set (C1_rows G f) \<subseteq> name ` set (used_techniques G f) \<and>
         (length (C1_rows G f) < 50 \<and> length (C2_rows G f) < 50 \<longrightarrow>
            name ` set (used_techniques G f) \<subseteq> set (C2_rows G f) \<union> fst ` set (C1_rows G f)) \<and>
         (inj_on name (set (used_techniques G f)) \<longrightarrow>
            set (C2_rows G f) \<inter> fst ` set (C1_rows G f) = {}) \<and>
         (length (C1_rows G f) < 50 \<and> length (C2_rows G f) < 50 \<and>
          set (C2_rows G f) \<inter> fst ` set (C1_rows G f) = {} \<longrightarrow>
            set (C2_rows G f) = name ` set (used_techniques G f) - fst ` set (C1_rows G f))"
proof -
  let ?U = "set (used_techniques G f)"
  let ?N = "{t \<in> ?U. mitigates_pattern G t = []}"
  let ?M = "{t \<in> ?U. mitigates_pattern G t \<noteq> []}"
  have 1: "fst (C1_group_mitigations self f) = Inr (pd_DataFrame (map C1_record (C1_rows G f)))"
    using assms C1_group_mitigations_fst [of self f] by simp
  have 2: "fst (C2_group_mitigation_gaps self f) = Inr (pd_DataFrame (map C2_record (C2_rows G f)))"
    using assms C2_group_mitigation_gaps_fst [of self f] by simp
  have 3: "length (C2_rows G f) \<le> 50"
    by (simp add: C2_rows_eq)
  have 4: "sorted (C2_rows G f)"
    unfolding C2_rows_eq by (intro sorted_wrt_take sorted_sort)
  have "set (C2_rows G f)
      \<subseteq> set (sort (map name [t \<leftarrow> remdups (used_techniques G f). mitigates_pattern G t = []]))"
    unfolding C2_rows_eq by (rule set_take_subset)
  then have c2: "set (C2_rows G f) \<subseteq> name ` ?N"
    by simp
  have "set (map fst (C1_rows G f))
      \<subseteq> set (sort (remdups (map name [t \<leftarrow> used_techniques G f. mitigates_pattern G t \<noteq> []])))"
    unfolding C1_names_eq by (rule set_take_subset)
  then have c1: "fst ` set (C1_rows G f) \<subseteq> name ` ?M"
    by simp
  have 5: "set (C2_rows G f) \<union> fst ` set (C1_rows G f) \<subseteq> name ` ?U"
    using c1 c2 by blast
  have full: "set (C2_rows G f) = name ` ?N \<and> fst ` set (C1_rows G f) = name ` ?M"
    if l1: "length (C1_rows G f) < 50" and l2: "length (C2_rows G f) < 50"
  proof -
    have "C2_rows G f
        = sort (map name [t \<leftarrow> remdups (used_techniques G f). mitigates_pattern G t = []])"
      using l2 unfolding C2_rows_eq by (rule take_short)
    then have a: "set (C2_rows G f) = name ` ?N"
      by simp
    have "length (map fst (C1_rows G f)) < 50"
      using l1 by simp
    then have "map fst (C1_rows G f)
        = sort (remdups (map name [t \<leftarrow> used_techniques G f. mitigates_pattern G t \<noteq> []]))"
      unfolding C1_names_eq by (rule take_short)
    then have "set (map fst (C1_rows G f)) = name ` ?M"
      by simp
    then show ?thesis
      using a by simp
  qed
  have 6: "length (C1_rows G f) < 50 \<and> length (C2_rows G f) < 50 \<longrightarrow>
            name ` ?U \<subseteq> set (C2_rows G f) \<union> fst ` set (C1_rows G f)"
  proof (intro impI, elim conjE)
    assume "length (C1_rows G f) < 50" "length (C2_rows G f) < 50"
    then have "set (C2_rows G f) = name ` ?N" "fst ` set (C1_rows G f) = name ` ?M"
      using full by simp_all
    then show "name ` ?U \<subseteq> set (C2_rows G f) \<union> fst ` set (C1_rows G f)"
      by (simp only:) blast
  qed
  have 7: "inj_on name ?U \<longrightarrow> set (C2_rows G f) \<inter> fst ` set (C1_rows G f) = {}"
  proof
    assume inj: "inj_on name ?U"
    have "name ` ?N \<inter> name ` ?M = {}"
    proof (rule ccontr)
      assume "name ` ?N \<inter> name ` ?M \<noteq> {}"
      then obtain t t' where "t \<in> ?N" "t' \<in> ?M" "name t = name t'"
        by (auto simp: image_iff)
      then have "t = t'" "mitigates_pattern G t = []" "mitigates_pattern G t' \<noteq> []"
        using inj by (auto dest: inj_onD)
      then show False
        by simp
    qed
    then show "set (C2_rows G f) \<inter> fst ` set (C1_rows G f) = {}"
      using c1 c2 by blast
  qed
  have 8: "length (C1_rows G f) < 50 \<and> length (C2_rows G f) < 50 \<and>
          set (C2_rows G f) \<inter> fst ` set (C1_rows G f) = {} \<longrightarrow>
            set (C2_rows G f) = name ` ?U - fst ` set (C1_rows G f)"
  proof (intro impI, elim conjE)
    assume l: "length (C1_rows G f) < 50" "length (C2_rows G f) < 50"
      and d: "set (C2_rows G f) \<inter> fst ` set (C1_rows G f) = {}"
    have "name ` ?U \<subseteq> set (C2_rows G f) \<union> fst ` set (C1_rows G f)"
      using 6 l by simp
    then show "set (C2_rows G f) = name ` ?U - fst ` set (C1_rows G f)"
      using 5 d by blast
  qed
  show ?thesis
    by (intro conjI) (rule 1, rule 2, rule 3, rule 4, rule 5, rule 6, rule 7, rule 8)
qed

lemma many_gaps_eval:
  "length (C2_rows many_gaps_graph ''APT29'') = 50 \<and>
   C1_rows many_gaps_graph ''APT29'' = [] \<and>
   length (remdups (map name (used_techniques many_gaps_graph ''APT29''))) = 51"
  by code_simp

theorem C2_gaps_complement_C1_witness:
  "C1_rows two_way_graph ''apt29'' = [(''T1059'', [''M1047''])] \<and>
   C2_rows two_way_graph ''apt29'' = [''T1003'', ''T1566''] \<and>
   map name (used_techniques two_way_graph ''apt29'') = [''T1003'', ''T1059'', ''T1566''] \<and>
   set (C2_rows two_way_graph ''apt29'') =
     name ` set (used_techniques two_way_graph ''apt29'') -
     fst ` set (C1_rows two_way_graph ''apt29'')"
proof -
  have g: "graph (server (driver (connect two_way_graph 0))) = two_way_graph"
    by (simp add: connect_def)
  have c1: "C1_rows two_way_graph ''apt29'' = [(''T1059'', [''M1047''])]"
    by code_simp
  have c2: "C2_rows two_way_graph ''apt29'' = [''T1003'', ''T1566'']"
    by code_simp
  have u: "map name (used_techniques two_way_graph ''apt29'') = [''T1003'', ''T1059'', ''T1566'']"
    by code_simp
  have h: "length (C1_rows two_way_graph ''apt29'') < 50 \<and>
           length (C2_rows two_way_graph ''apt29'') < 50 \<and>
           set (C2_rows two_way_graph ''apt29'') \<inter> fst ` set (C1_rows two_way_graph ''apt29'') = {}"
    unfolding c1 c2 by simp
  have "set (C2_rows two_way_graph ''apt29'') =
     name ` set (used_techniques two_way_graph ''apt29'') -
     fst ` set (C1_rows two_way_graph ''apt29'')"
    using C2_gaps_complement_C1 [OF g, of "''apt29''"] h by blast
  then show ?thesis
    using c1 c2 u by blast
qed

text \<open>
  C2 as stated fails twice. With 51 used techniques and no \<^verbatim>\<open>mitigates\<close> relation in
  the graph, C2 returns 50 names and C1 none, so one used technique is in neither
  table. With two techniques of one name, of which C1 returns one, the name is in C1's
  table and in C2's table.
\<close>

theorem C2_is_not_complement_of_C1:
  "set (C2_rows many_gaps_graph ''APT29'') \<noteq>
     name ` set (used_techniques many_gaps_graph ''APT29'') -
     fst ` set (C1_rows many_gaps_graph ''APT29'') \<and>
   set (C2_rows shared_name_gap_graph ''APT29'') \<noteq>
     name ` set (used_techniques shared_name_gap_graph ''APT29'') -
     fst ` set (C1_rows shared_name_gap_graph ''APT29'') \<and>
   C2_rows shared_name_gap_graph ''APT29'' = [''Local Account''] \<and>
   C1_rows shared_name_gap_graph ''APT29'' = [(''Local Account'', [''M1027''])]"
proof -
  have a: "length (C2_rows many_gaps_graph ''APT29'') = 50"
    and b: "C1_rows many_gaps_graph ''APT29'' = []"
    and c: "length (remdups (map name (used_techniques many_gaps_graph ''APT29''))) = 51"
    using many_gaps_eval by simp_all
  have "card (set (C2_rows many_gaps_graph ''APT29'')) \<le> 50"
    using card_length [of "C2_rows many_gaps_graph ''APT29''"] a by simp
  moreover have "card (name ` set (used_techniques many_gaps_graph ''APT29'')) = 51"
    using c by (simp add: length_remdups_card_conv)
  ultimately have 1: "set (C2_rows many_gaps_graph ''APT29'') \<noteq>
     name ` set (used_techniques many_gaps_graph ''APT29'') -
     fst ` set (C1_rows many_gaps_graph ''APT29'')"
    unfolding b by auto
  have 3: "C2_rows shared_name_gap_graph ''APT29'' = [''Local Account'']"
    by code_simp
  have 4: "C1_rows shared_name_gap_graph ''APT29'' = [(''Local Account'', [''M1027''])]"
    by code_simp
  have 2: "set (C2_rows shared_name_gap_graph ''APT29'') \<noteq>
     name ` set (used_techniques shared_name_gap_graph ''APT29'') -
     fst ` set (C1_rows shared_name_gap_graph ''APT29'')"
    unfolding 3 4 by auto
  show ?thesis
    using 1 2 3 4 by blast
qed











lemma flip_simps [simp]:
  "src (flip r) = tgt r" "tgt (flip r) = src r" "ATTACK_REL (flip r) = ATTACK_REL r"
  "flip (flip r) = r"
  by (simp_all add: flip_def ATTACK_REL_def)

lemma flipped_simps [simp]: "rels (flipped G) = map flip (rels G)" "flipped (flipped G) = G"
  by (simp_all add: flipped_def comp_def)











end
